theory Spec2Isabelle
  imports Main "HOL-Library.Sublist"
begin

section \<open>The Okta client of \<^verbatim>\<open>api.go\<close>\<close>

text \<open>
  A shallow embedding of package \<^verbatim>\<open>okta\<close> (\<^verbatim>\<open>src/api.go\<close>). The client's methods
  become functions that take the client and the outside world and return their results
  together with the new world (and the new client, where the method assigns a field).
  What the Go standard library does (JSON coding, request construction, the HTTP round
  trip, cookie serialisation) is not code of this package: it is taken as a parameter,
  collected in the record \<open>lib\<close>, except for the small string functions
  \<^verbatim>\<open>strings.Split\<close>, \<^verbatim>\<open>strings.Replace\<close> and \<^verbatim>\<open>url.QueryEscape\<close>, and the query
  string that \<^verbatim>\<open>url.Parse\<close> reads from a URL, which are written out.
\<close>

subsection \<open>Data model\<close>

text \<open>The fields of \<^verbatim>\<open>http.Cookie\<close> that \<^verbatim>\<open>Session\<close> sets (lines 66 to 73).\<close>

record Cookie =
  Name :: string
  Value :: string
  Path :: string
  Domain_c :: string
  Secure :: bool
  HttpOnly :: bool

text \<open>
  \<^verbatim>\<open>type Client struct\<close> (lines 14 to 20). The field \<^verbatim>\<open>client *http.Client\<close> is the
  transport; it is the \<open>RoundTrip\<close> parameter below. A nil \<^verbatim>\<open>*http.Cookie\<close> is \<open>None\<close>.
\<close>

record Client =
  org :: string
  Url :: string
  ApiToken :: string
  SessionCookie :: "Cookie option"

text \<open>
  Modelled from the spec: the declarations of \<^verbatim>\<open>ErrorResponse\<close>, \<^verbatim>\<open>AuthnRequest\<close>,
  \<^verbatim>\<open>SessionRequest\<close> and \<^verbatim>\<open>SessionResponse\<close> are not in \<^verbatim>\<open>api.go\<close>. Each record has
  the fields that \<^verbatim>\<open>api.go\<close> reads or writes (\<^verbatim>\<open>ErrorCode\<close> at line 30, \<^verbatim>\<open>Username\<close> and
  \<^verbatim>\<open>Password\<close> at lines 47 and 48, \<^verbatim>\<open>SessionToken\<close> at line 60, \<^verbatim>\<open>ID\<close> at line 68); the
  spec calls them the provider's error code, the credential pair, the session token and
  the session identifier. The types \<^verbatim>\<open>AuthnResponse\<close>, \<^verbatim>\<open>User\<close>, \<^verbatim>\<open>Group\<close> and \<^verbatim>\<open>AppLinks\<close>,
  of which \<^verbatim>\<open>api.go\<close> reads no field, are type variables.
\<close>

record ErrorResponse =
  ErrorCode :: string

record AuthnRequest =
  Username :: string
  Password :: string

record SessionRequest =
  SessionToken :: string

record SessionResponse =
  ID :: string

text \<open>\<^verbatim>\<open>type errorResponse struct\<close> (lines 23 to 27).\<close>

record errorResponse =
  HTTPCode :: int
  Response :: ErrorResponse
  Endpoint :: string

text \<open>
  A Go \<^verbatim>\<open>error\<close> value that is not nil: either an error of the standard library, of
  which the package knows nothing but that it is one, or a \<^verbatim>\<open>*errorResponse\<close>. A nil
  error is \<open>None\<close> of \<open>go_error option\<close>.
\<close>

datatype go_error = LibError string | ApiError errorResponse

text \<open>\<^verbatim>\<open>func (e *errorResponse) Error()\<close> (lines 29 to 31).\<close>

definition Error :: "errorResponse \<Rightarrow> string" where
  "Error e = ''Error hitting api endpoint '' @ Endpoint e @ '' '' @ ErrorCode (Response e)"

text \<open>
  The value behind the parameter \<^verbatim>\<open>request interface{}\<close> of \<^verbatim>\<open>call\<close>: nil, a
  \<^verbatim>\<open>*AuthnRequest\<close> or a \<^verbatim>\<open>*SessionRequest\<close>.
\<close>

datatype payload = NoRequest | AuthnPayload AuthnRequest | SessionPayload SessionRequest

text \<open>
  An \<^verbatim>\<open>http.Header\<close> maps a header name to the list of its values; a name that is
  absent has the nil slice, \<open>None\<close>. \<^verbatim>\<open>Add\<close> appends a value, \<^verbatim>\<open>Values\<close> reads the list.
  The names used by \<^verbatim>\<open>api.go\<close> are in canonical form already.
\<close>

type_synonym header = "string \<Rightarrow> string list option"

definition Values :: "header \<Rightarrow> string \<Rightarrow> string list option" where
  "Values h k = h k"

definition Add :: "header \<Rightarrow> string \<Rightarrow> string \<Rightarrow> header" where
  "Add h k v = h(k \<mapsto> (case h k of None \<Rightarrow> [] | Some vs \<Rightarrow> vs) @ [v])"

text \<open>
  An \<^verbatim>\<open>http.Request\<close> as \<^verbatim>\<open>http.NewRequest\<close> and \<^verbatim>\<open>call\<close> fill it: the method, the URL as
  the string that was given, the headers and the body.
\<close>

record Request =
  Method :: string
  URL :: string
  Header :: header
  Body :: string

text \<open>
  An \<^verbatim>\<open>http.Response\<close>: its status code, its headers, and what \<^verbatim>\<open>ioutil.ReadAll\<close>
  makes of its body (the bytes, or a read error).
\<close>

record Response =
  StatusCode :: int
  RespHeader :: header
  RespBody :: "go_error + string"

text \<open>
  \<^verbatim>\<open>json.Unmarshal(body, dest)\<close> for one type of destination: from the body and the
  value the destination holds, the value it holds afterwards and the error.
\<close>

type_synonym 'a decoder = "string \<Rightarrow> 'a \<Rightarrow> 'a \<times> go_error option"

text \<open>
  The standard library, as far as \<^verbatim>\<open>call\<close> uses it. \<open>'p\<close> is the state of the network
  and the provider behind it.
  \<^item> \<open>Marshal\<close>: the bytes \<^verbatim>\<open>json.Marshal(request)\<close> returns (line 131 drops its error);
  \<^item> \<open>NewRequestErr\<close>: the error of \<^verbatim>\<open>http.NewRequest\<close> for a method and a URL, if any;
  \<^item> \<open>CookieString\<close>: \<^verbatim>\<open>(*http.Cookie).String\<close>;
  \<^item> \<open>RoundTrip\<close>: \<^verbatim>\<open>(*http.Client).Do\<close>, a transport error or a response, and
    the provider's next state;
  \<^item> \<open>UnmarshalError\<close>: \<^verbatim>\<open>json.Unmarshal\<close> into an \<^verbatim>\<open>ErrorResponse\<close>.
\<close>

record 'p lib =
  Marshal :: "payload \<Rightarrow> string"
  NewRequestErr :: "string \<Rightarrow> string \<Rightarrow> go_error option"
  CookieString :: "Cookie \<Rightarrow> string"
  RoundTrip :: "'p \<Rightarrow> Request \<Rightarrow> (go_error + Response) \<times> 'p"
  UnmarshalError :: "ErrorResponse decoder"

text \<open>
  The world outside the client: the provider's state, the requests handed to the HTTP
  client so far (a log that the program cannot read), and the lines written to
  standard output.
\<close>

record 'p world =
  provider :: 'p
  sent :: "Request list"
  stdout :: "string list"

subsection \<open>String functions of the standard library\<close>

text \<open>
  \<^verbatim>\<open>strings.Replace(s, old, new, -1)\<close>: every occurrence of \<open>old\<close>, found from left to
  right without overlap, becomes \<open>new\<close>. An empty \<open>old\<close> matches before every
  character and at the end.
\<close>

fun Replace :: "string \<Rightarrow> string \<Rightarrow> string \<Rightarrow> string" where
  "Replace [] old new = (if old = [] then new else [])"
| "Replace (x # xs) old new =
     (if old = [] then new @ x # Replace xs old new
      else if prefix old (x # xs) then new @ Replace (drop (length old) (x # xs)) old new
      else x # Replace xs old new)"

text \<open>
  \<^verbatim>\<open>strings.Split(s, sep)\<close>: the pieces of \<open>s\<close> between the occurrences of \<open>sep\<close>, found
  from left to right. An empty \<open>sep\<close> splits after every character.
\<close>

fun Split :: "string \<Rightarrow> string \<Rightarrow> string list" where
  "Split [] sep = (if sep = [] then [] else [[]])"
| "Split (x # xs) sep =
     (if sep = [] then [x] # Split xs sep
      else if prefix sep (x # xs) then [] # Split (drop (length sep) (x # xs)) sep
      else (case Split xs sep of [] \<Rightarrow> [[x]] | p # ps \<Rightarrow> (x # p) # ps))"

text \<open>
  \<^verbatim>\<open>url.QueryEscape\<close>: letters, digits and \<^verbatim>\<open>-_.~\<close> stay, a space becomes \<^verbatim>\<open>+\<close>, every
  other byte becomes \<^verbatim>\<open>%\<close> and its two upper-case hexadecimal digits.
\<close>

definition shouldEscape :: "char \<Rightarrow> bool" where
  "shouldEscape c \<longleftrightarrow>
     c \<notin> set ''abcdefghijklmnopqrstuvwxyzABCDEFGHIJKLMNOPQRSTUVWXYZ0123456789''
     \<and> c \<notin> set ''-_.~''"

definition upperhex :: string where
  "upperhex = ''0123456789ABCDEF''"

definition escape_byte :: "char \<Rightarrow> string" where
  "escape_byte c =
     (if c = CHR '' '' then ''+''
      else if shouldEscape c
        then [CHR ''%'', upperhex ! ((of_char c :: nat) div 16), upperhex ! ((of_char c :: nat) mod 16)]
      else [c])"

definition QueryEscape :: "string \<Rightarrow> string" where
  "QueryEscape s = concat (map escape_byte s)"

text \<open>\<^verbatim>\<open>strings.Join\<close>.\<close>

fun Join :: "string list \<Rightarrow> string \<Rightarrow> string" where
  "Join [] sep = []"
| "Join [x] sep = x"
| "Join (x # y # ys) sep = x @ sep @ Join (y # ys) sep"

text \<open>
  \<^verbatim>\<open>url.Values\<close> is a map from a key to its values, here the list of its entries.
  \<^verbatim>\<open>Encode\<close> writes \<^verbatim>\<open>key=value\<close> for every value of every key, both escaped, with \<^verbatim>\<open>&\<close>
  between them. Go takes the keys in sorted order; the list has them in the order in
  which they were added, which is the same for the one key that \<^verbatim>\<open>AppLinks\<close> adds to an
  empty map.
\<close>

type_synonym url_values = "(string \<times> string list) list"

definition Values_Add :: "url_values \<Rightarrow> string \<Rightarrow> string \<Rightarrow> url_values" where
  "Values_Add v k x =
     (if k \<in> fst ` set v then map (\<lambda>(k', xs). if k' = k then (k', xs @ [x]) else (k', xs)) v
      else v @ [(k, [x])])"

definition Encode :: "url_values \<Rightarrow> string" where
  "Encode v =
     Join (concat (map (\<lambda>(k, xs). map (\<lambda>x. QueryEscape k @ ''='' @ QueryEscape x) xs) v)) ''&''"

text \<open>
  The query string of a URL as \<^verbatim>\<open>url.Parse\<close> reads it: the fragment, from the first
  \<^verbatim>\<open>#\<close> on, is cut off, and the query is what follows the first \<^verbatim>\<open>?\<close> of the rest;
  \<open>None\<close> is a URL that has no \<^verbatim>\<open>?\<close> before its fragment.
\<close>

definition query_string :: "string \<Rightarrow> string option" where
  "query_string rawURL =
     (let u = takeWhile (\<lambda>x. x \<noteq> CHR ''#'') rawURL
      in if CHR ''?'' \<in> set u then Some (tl (dropWhile (\<lambda>x. x \<noteq> CHR ''?'') u)) else None)"

subsection \<open>The call path\<close>

text \<open>
  \<^verbatim>\<open>c.client.Do(req)\<close> (line 149): the request goes to the provider, which answers and
  moves to its next state; the request is appended to the log.
\<close>

definition Do :: "'p lib \<Rightarrow> 'p world \<Rightarrow> Request \<Rightarrow> (go_error + Response) \<times> 'p world" where
  "Do L w req =
     (case RoundTrip L (provider w) req of
        (r, p') \<Rightarrow> (r, w\<lparr>provider := p', sent := sent w @ [req]\<rparr>))"

text \<open>
  Lines 131 to 147 of \<^verbatim>\<open>call\<close>: the request that \<^verbatim>\<open>call\<close> builds, or the error of
  \<^verbatim>\<open>http.NewRequest\<close>.
\<close>

definition call_url :: "Client \<Rightarrow> string \<Rightarrow> string" where
  "call_url c endpoint = ''https://'' @ org c @ ''.'' @ Url c @ ''/api/v1/'' @ endpoint"

definition call_request :: "'p lib \<Rightarrow> Client \<Rightarrow> string \<Rightarrow> string \<Rightarrow> payload \<Rightarrow> go_error + Request" where
  "call_request L c endpoint method request =
     (let data = Marshal L request;
          url = call_url c endpoint
      in case NewRequestErr L method url of
           Some err \<Rightarrow> Inl err
         | None \<Rightarrow>
             (let h0 = Map.empty;
                  h1 = Add h0 ''Accept'' ''application/json'';
                  h2 = Add h1 ''Content-Type'' ''application/json'';
                  h3 = (if ApiToken c \<noteq> '''' then Add h2 ''Authorization'' (''SSWS '' @ ApiToken c)
                        else h2);
                  h4 = (case SessionCookie c of
                          None \<Rightarrow> h3
                        | Some ck \<Rightarrow> Add h3 ''Cookie'' (CookieString L ck))
              in Inr \<lparr>Method = method, URL = url, Header = h4, Body = data\<rparr>))"

text \<open>
  \<^verbatim>\<open>func (c *Client) call\<close> (lines 130 to 184). \<open>Unmarshal\<close> and \<open>response\<close> stand for
  the parameter \<^verbatim>\<open>response interface{}\<close>: the decoder of the destination's type and the
  value the destination holds. The result is the pair that \<^verbatim>\<open>call\<close> returns (error and
  link), the value the destination holds afterwards, and the new world.
\<close>

definition call ::
  "'p lib \<Rightarrow> Client \<Rightarrow> 'p world \<Rightarrow> string \<Rightarrow> string \<Rightarrow> payload \<Rightarrow> 'a decoder \<Rightarrow> 'a
     \<Rightarrow> (go_error option \<times> string) \<times> 'a \<times> 'p world" where
  "call L c w endpoint method request Unmarshal response =
     (let link = '''';
          url = call_url c endpoint
      in case call_request L c endpoint method request of
           Inl err \<Rightarrow> ((Some err, link), response, w)
         | Inr req \<Rightarrow>
             (case Do L w req of
                (Inl err, w') \<Rightarrow> ((Some err, link), response, w')
              | (Inr resp, w') \<Rightarrow>
                  (case RespBody resp of
                     Inl err \<Rightarrow> ((Some err, link), response, w')
                   | Inr body \<Rightarrow>
                       if StatusCode resp = 200 then
                         (case Unmarshal body response of
                            (response', Some err) \<Rightarrow> ((Some err, link), response', w')
                          | (response', None) \<Rightarrow>
                              (let links = Values (RespHeader resp) ''Link'';
                                   link' = (case links of
                                              None \<Rightarrow> link
                                            | Some ls \<Rightarrow> if length ls = 2 then ls ! 1 else link)
                               in ((None, link'), response', w')))
                       else
                         (let errors = fst (UnmarshalError L body \<lparr>ErrorCode = ''''\<rparr>)
                          in ((Some (ApiError \<lparr>HTTPCode = StatusCode resp,
                                               Response = errors,
                                               Endpoint = url\<rparr>), link), response, w')))))"

subsection \<open>The operations\<close>

text \<open>
  The destination of a type of which \<^verbatim>\<open>api.go\<close> knows nothing: its zero value, which
  \<^verbatim>\<open>&T{}\<close> allocates, and its decoder.
\<close>

record 'a target =
  zero :: 'a
  Unmarshal :: "'a decoder"

text \<open>\<^verbatim>\<open>func (c *Client) Authenticate\<close> (lines 45 to 54).\<close>

definition Authenticate ::
  "'p lib \<Rightarrow> 'a target \<Rightarrow> Client \<Rightarrow> 'p world \<Rightarrow> string \<Rightarrow> string
     \<Rightarrow> ('a \<times> go_error option) \<times> 'p world" where
  "Authenticate L T c w username password =
     (let request = \<lparr>Username = username, Password = password\<rparr>
      in case call L c w ''authn'' ''POST'' (AuthnPayload request) (Unmarshal T) (zero T) of
           ((err, _), response, w') \<Rightarrow> ((response, err), w'))"

text \<open>
  \<^verbatim>\<open>func (c *Client) Session\<close> (lines 58 to 76). It assigns \<^verbatim>\<open>c.SessionCookie\<close>, so the
  client is part of the result.
\<close>

definition Session ::
  "'p lib \<Rightarrow> SessionResponse decoder \<Rightarrow> Client \<Rightarrow> 'p world \<Rightarrow> string
     \<Rightarrow> (SessionResponse \<times> go_error option) \<times> Client \<times> 'p world" where
  "Session L U c w sessionToken =
     (let request = \<lparr>SessionToken = sessionToken\<rparr>
      in case call L c w ''sessions'' ''POST'' (SessionPayload request) U \<lparr>ID = ''''\<rparr> of
           ((err, _), response, w') \<Rightarrow>
             (let c' = (if err = None
                        then c\<lparr>SessionCookie := Some \<lparr>Name = ''sid'',
                                                       Value = ID response,
                                                       Path = ''/'',
                                                       Domain_c = org c @ ''.'' @ Url c,
                                                       Secure = True,
                                                       HttpOnly = True\<rparr>\<rparr>
                        else c)
              in ((response, err), c', w')))"

text \<open>\<^verbatim>\<open>func (c *Client) User\<close> (lines 79 to 84).\<close>

definition User ::
  "'p lib \<Rightarrow> 'a target \<Rightarrow> Client \<Rightarrow> 'p world \<Rightarrow> string \<Rightarrow> ('a \<times> go_error option) \<times> 'p world" where
  "User L T c w userID =
     (case call L c w (''users/'' @ userID) ''GET'' NoRequest (Unmarshal T) (zero T) of
        ((err, _), response, w') \<Rightarrow> ((response, err), w'))"

text \<open>\<^verbatim>\<open>func (c *Client) AppLinks\<close> (lines 116 to 128).\<close>

definition AppLinks ::
  "'p lib \<Rightarrow> 'a target \<Rightarrow> Client \<Rightarrow> 'p world \<Rightarrow> string \<Rightarrow> string
     \<Rightarrow> ('a \<times> go_error option) \<times> 'p world" where
  "AppLinks L T c w userID appName =
     (let u = ''users/'' @ userID @ ''/appLinks'';
          u = (if length appName > 0
               then (let v = Values_Add [] ''filter''
                               (''appName eq '' @ [CHR 0x22] @ appName @ [CHR 0x22])
                     in u @ ''?'' @ Encode v)
               else u)
      in case call L c w u ''GET'' NoRequest (Unmarshal T) (zero T) of
           ((err, _), response, w') \<Rightarrow> ((response, err), w'))"

text \<open>
  \<^verbatim>\<open>func (c *Client) Groups\<close> (lines 87 to 114). Lines 102 to 104 rewrite the link
  that \<^verbatim>\<open>call\<close> returned into the next endpoint; \<^verbatim>\<open>strings.Split\<close> with a separator that
  is not empty returns at least one piece, so \<^verbatim>\<open>parts[0]\<close> is the head of the list.
\<close>

definition Groups_nextLink :: "Client \<Rightarrow> string \<Rightarrow> string" where
  "Groups_nextLink c link =
     (let parts = Split link '';'';
          nextLink = Replace (hd parts) (''<https://'' @ org c @ ''.okta.com/api/v1/'') '''';
          nextLink = Replace nextLink ''>'' ''''
      in nextLink)"

text \<open>
  One turn of the loop (lines 93 to 110) from the world, the accumulated \<^verbatim>\<open>response\<close>
  and \<^verbatim>\<open>nextLink\<close>: \<open>Inl\<close> is what \<^verbatim>\<open>Groups\<close> returns when the turn leaves the loop
  (line 97, or the \<^verbatim>\<open>break\<close> of line 107 followed by line 113), \<open>Inr\<close> the variables
  at the start of the next turn.
\<close>

definition Groups_body ::
  "'p lib \<Rightarrow> 'g list decoder \<Rightarrow> Client \<Rightarrow> 'p world \<times> 'g list \<times> string
     \<Rightarrow> (('g list \<times> go_error option) \<times> 'p world) + ('p world \<times> 'g list \<times> string)" where
  "Groups_body L U c s =
     (case s of (w, response, nextLink) \<Rightarrow>
        (case call L c w nextLink ''GET'' NoRequest U [] of
           ((Some err, link), resp, w') \<Rightarrow> Inl ((resp, Some err), w')
         | ((None, link), resp, w') \<Rightarrow>
             (let response' = response @ resp;
                  nextLink' = Groups_nextLink c link
              in if nextLink' = '''' then Inl ((response', None), w')
                 else Inr (w'\<lparr>stdout := stdout w' @ [''go next link'']\<rparr>, response', nextLink'))))"

text \<open>The loop \<^verbatim>\<open>for { ... }\<close>; \<open>None\<close> is a loop that never ends.\<close>

partial_function (option) Groups_loop ::
  "'p lib \<Rightarrow> 'g list decoder \<Rightarrow> Client \<Rightarrow> 'p world \<times> 'g list \<times> string
     \<Rightarrow> (('g list \<times> go_error option) \<times> 'p world) option" where
  "Groups_loop L U c s =
     (case Groups_body L U c s of
        Inl r \<Rightarrow> Some r
      | Inr s' \<Rightarrow> Groups_loop L U c s')"

definition Groups ::
  "'p lib \<Rightarrow> 'g list decoder \<Rightarrow> Client \<Rightarrow> 'p world \<Rightarrow> string
     \<Rightarrow> (('g list \<times> go_error option) \<times> 'p world) option" where
  "Groups L U c w userID =
     Groups_loop L U c (w, [], ''users/'' @ userID @ ''/groups?limit=200'')"

text \<open>\<^verbatim>\<open>func NewClient\<close> (lines 34 to 42).\<close>

definition NewClient :: "string \<Rightarrow> Client" where
  "NewClient org' = \<lparr>org = org', Url = ''okta.com'', ApiToken = '''', SessionCookie = None\<rparr>"

text \<open>The equation of the loop is its code equation.\<close>

declare Groups_loop.simps [code]

subsection \<open>The turns of the loop\<close>

text \<open>
  \<open>Groups_after L U c n s\<close> is the state of the loop after \<open>n\<close> turns from the state
  \<open>s\<close>, each of which went on to the next (no error, and a next link that is not
  empty); it is \<open>None\<close> when one of these turns left the loop.
\<close>

fun Groups_after ::
  "'p lib \<Rightarrow> 'g list decoder \<Rightarrow> Client \<Rightarrow> nat \<Rightarrow> 'p world \<times> 'g list \<times> string
     \<Rightarrow> ('p world \<times> 'g list \<times> string) option" where
  "Groups_after L U c 0 s = Some s"
| "Groups_after L U c (Suc n) s =
     (case Groups_body L U c s of
        Inl r \<Rightarrow> None
      | Inr s' \<Rightarrow> Groups_after L U c n s')"

text \<open>
  \<open>Groups_pages L U c w endpoint ps\<close>: from the world \<open>w\<close>, the provider answers the
  requests of a run that starts at \<open>endpoint\<close> with the successful pages \<open>ps\<close>, each
  given by its items and its next-page link, and the link of the last page, and of no
  page before it, is rewritten to the empty string.
\<close>

fun Groups_pages ::
  "'p lib \<Rightarrow> 'g list decoder \<Rightarrow> Client \<Rightarrow> 'p world \<Rightarrow> string \<Rightarrow> ('g list \<times> string) list \<Rightarrow> bool" where
  "Groups_pages L U c w endpoint [] = False"
| "Groups_pages L U c w endpoint ((items, link) # ps) =
     (case call L c w endpoint ''GET'' NoRequest U [] of
        ((err, link'), resp, w') \<Rightarrow>
          err = None \<and> resp = items \<and> link' = link \<and>
          (if Groups_nextLink c link = '''' then ps = []
           else Groups_pages L U c (w'\<lparr>stdout := stdout w' @ [''go next link'']\<rparr>)
                  (Groups_nextLink c link) ps))"

subsection \<open>A provider for the examples\<close>

text \<open>
  A standard library and providers to run the client on: requests are always built, a
  cookie is written as Go writes one whose fields need no quoting, bodies are decoded
  by table, and the provider's state counts the requests it has answered.
\<close>

definition stub_Marshal :: "payload \<Rightarrow> string" where
  "stub_Marshal q =
     (case q of
        NoRequest \<Rightarrow> ''null''
      | AuthnPayload r \<Rightarrow> ''{username:'' @ Username r @ '',password:'' @ Password r @ ''}''
      | SessionPayload r \<Rightarrow> ''{sessionToken:'' @ SessionToken r @ ''}'')"

definition stub_CookieString :: "Cookie \<Rightarrow> string" where
  "stub_CookieString ck =
     Name ck @ ''='' @ Value ck
     @ (if Path ck = '''' then '''' else ''; Path='' @ Path ck)
     @ (if Domain_c ck = '''' then '''' else ''; Domain='' @ Domain_c ck)
     @ (if HttpOnly ck then ''; HttpOnly'' else '''')
     @ (if Secure ck then ''; Secure'' else '''')"

definition stub_UnmarshalError :: "ErrorResponse decoder" where
  "stub_UnmarshalError body dest =
     (if body = ''{\"errorCode\":\"E0000004\"}'' then (dest\<lparr>ErrorCode := ''E0000004''\<rparr>, None)
      else (dest, Some (LibError ''invalid character'')))"

definition stub_lib :: "(Request \<Rightarrow> go_error + Response) \<Rightarrow> nat lib" where
  "stub_lib handler =
     \<lparr>Marshal = stub_Marshal,
      NewRequestErr = (\<lambda>method url. None),
      CookieString = stub_CookieString,
      RoundTrip = (\<lambda>p req. (handler req, Suc p)),
      UnmarshalError = stub_UnmarshalError\<rparr>"

definition stub_world :: "nat world" where
  "stub_world = \<lparr>provider = 0, sent = [], stdout = []\<rparr>"

text \<open>The provider that answers every request with status 401 and an error payload.\<close>

definition stub_unauthorized :: "Request \<Rightarrow> go_error + Response" where
  "stub_unauthorized req =
     Inr \<lparr>StatusCode = 401, RespHeader = Map.empty, RespBody = Inr ''{\"errorCode\":\"E0000004\"}''\<rparr>"

definition stub_UnmarshalGroups :: "string list decoder" where
  "stub_UnmarshalGroups body dest =
     (if body = ''[g1,g2]'' then ([''g1'', ''g2''], None)
      else if body = ''[g3,g4]'' then ([''g3'', ''g4''], None)
      else if body = ''[g5]'' then ([''g5''], None)
      else (dest, Some (LibError ''invalid character'')))"

definition stub_UnmarshalSession :: "SessionResponse decoder" where
  "stub_UnmarshalSession body dest =
     (if body = ''{id:s1}'' then (dest\<lparr>ID := ''s1''\<rparr>, None)
      else (dest, Some (LibError ''invalid character'')))"

definition stub_target :: "string target" where
  "stub_target = \<lparr>zero = '''', Unmarshal = (\<lambda>body dest. (body, None))\<rparr>"

text \<open>
  Three pages of groups of the user \<open>u1\<close> of the organisation \<open>acme\<close>, the first two
  with a second \<open>Link\<close> header for the next page, and a session.
\<close>

definition stub_pages :: "Request \<Rightarrow> go_error + Response" where
  "stub_pages req =
     (if URL req = ''https://acme.okta.com/api/v1/users/u1/groups?limit=200'' then
        Inr \<lparr>StatusCode = 200,
             RespHeader = [''Link'' \<mapsto> [''<https://acme.okta.com/api/v1/users/u1/groups?limit=200>; rel=self'',
                                        ''<https://acme.okta.com/api/v1/users/u1/groups?after=g2>; rel=next'']],
             RespBody = Inr ''[g1,g2]''\<rparr>
      else if URL req = ''https://acme.okta.com/api/v1/users/u1/groups?after=g2'' then
        Inr \<lparr>StatusCode = 200,
             RespHeader = [''Link'' \<mapsto> [''<https://acme.okta.com/api/v1/users/u1/groups?after=g2>; rel=self'',
                                        ''<https://acme.okta.com/api/v1/users/u1/groups?after=g4>; rel=next'']],
             RespBody = Inr ''[g3,g4]''\<rparr>
      else if URL req = ''https://acme.okta.com/api/v1/users/u1/groups?after=g4'' then
        Inr \<lparr>StatusCode = 200,
             RespHeader = [''Link'' \<mapsto> [''<https://acme.okta.com/api/v1/users/u1/groups?after=g4>; rel=self'']],
             RespBody = Inr ''[g5]''\<rparr>
      else if URL req = ''https://acme.okta.com/api/v1/sessions'' then
        Inr \<lparr>StatusCode = 200, RespHeader = Map.empty, RespBody = Inr ''{id:s1}''\<rparr>
      else Inr \<lparr>StatusCode = 500, RespHeader = Map.empty, RespBody = Inr ''Internal Server Error''\<rparr>)"

text \<open>The first page as \<open>stub_pages\<close> serves it, then status 500.\<close>

definition stub_broken :: "Request \<Rightarrow> go_error + Response" where
  "stub_broken req =
     (if URL req = ''https://acme.okta.com/api/v1/users/u1/groups?limit=200'' then stub_pages req
      else Inr \<lparr>StatusCode = 500, RespHeader = Map.empty, RespBody = Inr ''Internal Server Error''\<rparr>)"

text \<open>A provider whose every page has a next page.\<close>

definition stub_endless :: "Request \<Rightarrow> go_error + Response" where
  "stub_endless req =
     Inr \<lparr>StatusCode = 200,
          RespHeader = [''Link'' \<mapsto> [''<https://acme.okta.com/api/v1/more>; rel=self'',
                                     ''<https://acme.okta.com/api/v1/more>; rel=next'']],
          RespBody = Inr ''[g5]''\<rparr>"

text \<open>An error that carries the status 401 and the provider's error code \<^verbatim>\<open>E0000004\<close>.\<close>

definition is_401 :: "go_error option \<Rightarrow> bool" where
  "is_401 err \<longleftrightarrow> (\<exists>e. err = Some (ApiError e) \<and> HTTPCode e = 401 \<and> ErrorCode (Response e) = ''E0000004'')"

text \<open>The requests handed to the HTTP client between the world \<open>w\<close> and the later \<open>w'\<close>.\<close>

definition requests_since :: "'p world \<Rightarrow> 'p world \<Rightarrow> Request list" where
  "requests_since w w' = drop (length (sent w)) (sent w')"

text \<open>A client with an API token and a session cookie.\<close>

definition stub_client :: Client where
  "stub_client =
     \<lparr>org = ''acme'', Url = ''okta.com'', ApiToken = ''tok'',
      SessionCookie = Some \<lparr>Name = ''sid'', Value = ''s0'', Path = ''/'',
                             Domain_c = ''acme.okta.com'', Secure = True, HttpOnly = True\<rparr>\<rparr>"

text \<open>A response with status 200 and two \<^verbatim>\<open>Link\<close> headers whose body is no JSON.\<close>

definition undecodable_response :: Response where
  "undecodable_response =
     \<lparr>StatusCode = 200,
      RespHeader = [''Link'' \<mapsto> [''<https://acme.okta.com/api/v1/users/u1/groups?limit=200>; rel=self'',
                                 ''<https://acme.okta.com/api/v1/users/u1/groups?after=g2>; rel=next'']],
      RespBody = Inr ''oops''\<rparr>"

definition stub_undecodable :: "Request \<Rightarrow> go_error + Response" where
  "stub_undecodable req = Inr undecodable_response"

text \<open>A response with status 500 whose body cannot be read.\<close>

definition unreadable_response :: Response where
  "unreadable_response =
     \<lparr>StatusCode = 500, RespHeader = Map.empty, RespBody = Inl (LibError ''unexpected EOF'')\<rparr>"

definition stub_unreadable :: "Request \<Rightarrow> go_error + Response" where
  "stub_unreadable req = Inr unreadable_response"

text \<open>
  A library whose \<^verbatim>\<open>http.NewRequest\<close> refuses a URL in which a \<^verbatim>\<open>%\<close> is not followed by
  two hexadecimal digits, as Go's does for the path of a URL.
\<close>

fun bad_escape :: "string \<Rightarrow> bool" where
  "bad_escape [] = False"
| "bad_escape (x # xs) =
     (if x = CHR ''%''
      then \<not> (length xs \<ge> 2 \<and> set (take 2 xs) \<subseteq> set ''0123456789abcdefABCDEF'') \<or> bad_escape (drop 2 xs)
      else bad_escape xs)"

definition stub_strict :: "(Request \<Rightarrow> go_error + Response) \<Rightarrow> nat lib" where
  "stub_strict handler =
     (stub_lib handler)
       \<lparr>NewRequestErr := (\<lambda>meth url. if bad_escape url then Some (LibError ''invalid URL escape'')
                                      else None)\<rparr>"

section \<open>Properties\<close>

subsection \<open>The call path\<close>

lemma call_request_Inr:
  "call_request L c endpoint method request = Inr req \<Longrightarrow>
     NewRequestErr L method (call_url c endpoint) = None \<and>
     Method req = method \<and> URL req = call_url c endpoint \<and> Body req = Marshal L request"
  by (auto simp: call_request_def Let_def split: option.splits)

lemma call_request_Accept:
  "call_request L c endpoint method request = Inr req \<Longrightarrow>
     Values (Header req) ''Accept'' = Some [''application/json'']"
  by (auto simp: call_request_def Let_def Values_def Add_def split: option.splits if_splits)

lemma call_request_Content_Type:
  "call_request L c endpoint method request = Inr req \<Longrightarrow>
     Values (Header req) ''Content-Type'' = Some [''application/json'']"
  by (auto simp: call_request_def Let_def Values_def Add_def split: option.splits if_splits)

lemma call_request_Authorization:
  "call_request L c endpoint method request = Inr req \<Longrightarrow>
     Values (Header req) ''Authorization'' =
       (if ApiToken c = '''' then None else Some [''SSWS '' @ ApiToken c])"
  by (auto simp: call_request_def Let_def Values_def Add_def split: option.splits if_splits)

lemma call_request_Cookie:
  "call_request L c endpoint method request = Inr req \<Longrightarrow>
     Values (Header req) ''Cookie'' =
       (case SessionCookie c of None \<Rightarrow> None | Some ck \<Rightarrow> Some [CookieString L ck])"
  by (auto simp: call_request_def Let_def Values_def Add_def split: option.splits if_splits)

lemma call_request_ok:
  "NewRequestErr L method (call_url c endpoint) = None \<Longrightarrow>
     \<exists>req. call_request L c endpoint method request = Inr req"
  by (simp add: call_request_def Let_def)

lemma call_sent_Inr:
  "call_request L c endpoint method request = Inr req \<Longrightarrow>
     sent (snd (snd (call L c w endpoint method request U response))) = sent w @ [req]"
  by (auto simp: call_def Do_def Let_def split: prod.splits sum.splits option.splits)

lemma call_sent_Inl:
  "call_request L c endpoint method request = Inl err \<Longrightarrow>
     call L c w endpoint method request U response = ((Some err, ''''), response, w)"
  by (simp add: call_def)

lemma call_sent:
  "sent (snd (snd (call L c w endpoint meth request U response))) =
     sent w @ (case call_request L c endpoint meth request of Inl err \<Rightarrow> [] | Inr req \<Rightarrow> [req])"
proof (cases "call_request L c endpoint meth request")
  case (Inl err)
  then show ?thesis by (simp add: call_sent_Inl)
next
  case (Inr req)
  then show ?thesis by (simp add: call_sent_Inr)
qed

lemma call_requests_since:
  "requests_since w (snd (snd (call L c w endpoint meth request U response))) =
     (case call_request L c endpoint meth request of Inl err \<Rightarrow> [] | Inr req \<Rightarrow> [req])"
  by (simp add: requests_since_def call_sent)

lemma call_None_built:
  assumes "fst (fst (call L c w endpoint meth request U response)) = None"
  shows "\<exists>req. call_request L c endpoint meth request = Inr req"
proof (cases "call_request L c endpoint meth request")
  case (Inl err)
  from call_sent_Inl [OF this, of w U response] assms show ?thesis by simp
next
  case (Inr req)
  then show ?thesis by blast
qed

lemma call_None_sent:
  assumes "call L c w endpoint meth request U response = ((None, link), resp, w')"
  shows "\<exists>req. sent w' = sent w @ [req] \<and> Method req = meth \<and> URL req = call_url c endpoint"
proof -
  from assms have "fst (fst (call L c w endpoint meth request U response)) = None" by simp
  from call_None_built [OF this] obtain req where r: "call_request L c endpoint meth request = Inr req"
    by blast
  from call_sent_Inr [OF r, of w U response] assms have "sent w' = sent w @ [req]" by simp
  with call_request_Inr [OF r] show ?thesis by blast
qed

lemma call_transport_error:
  "call_request L c endpoint method request = Inr req \<Longrightarrow>
   RoundTrip L (provider w) req = (Inl err, p') \<Longrightarrow>
     call L c w endpoint method request U response =
       ((Some err, ''''), response, w\<lparr>provider := p', sent := sent w @ [req]\<rparr>)"
  by (simp add: call_def Do_def)

lemma call_read_error:
  "call_request L c endpoint method request = Inr req \<Longrightarrow>
   RoundTrip L (provider w) req = (Inr resp, p') \<Longrightarrow>
   RespBody resp = Inl err \<Longrightarrow>
     call L c w endpoint method request U response =
       ((Some err, ''''), response, w\<lparr>provider := p', sent := sent w @ [req]\<rparr>)"
  by (simp add: call_def Do_def)

lemma call_status_error:
  "call_request L c endpoint method request = Inr req \<Longrightarrow>
   RoundTrip L (provider w) req = (Inr resp, p') \<Longrightarrow>
   RespBody resp = Inr body \<Longrightarrow>
   StatusCode resp \<noteq> 200 \<Longrightarrow>
     call L c w endpoint method request U response =
       ((Some (ApiError \<lparr>HTTPCode = StatusCode resp,
                         Response = fst (UnmarshalError L body \<lparr>ErrorCode = ''''\<rparr>),
                         Endpoint = call_url c endpoint\<rparr>), ''''),
        response, w\<lparr>provider := p', sent := sent w @ [req]\<rparr>)"
  by (simp add: call_def Do_def)

lemma call_ok:
  "call_request L c endpoint method request = Inr req \<Longrightarrow>
   RoundTrip L (provider w) req = (Inr resp, p') \<Longrightarrow>
   RespBody resp = Inr body \<Longrightarrow>
   StatusCode resp = 200 \<Longrightarrow>
   U body response = (response', None) \<Longrightarrow>
     call L c w endpoint method request U response =
       ((None, case Values (RespHeader resp) ''Link'' of
                 None \<Rightarrow> ''''
               | Some ls \<Rightarrow> if length ls = 2 then ls ! 1 else ''''),
        response', w\<lparr>provider := p', sent := sent w @ [req]\<rparr>)"
  by (simp add: call_def Do_def)

lemma call_decode_error:
  "call_request L c endpoint method request = Inr req \<Longrightarrow>
   RoundTrip L (provider w) req = (Inr resp, p') \<Longrightarrow>
   RespBody resp = Inr body \<Longrightarrow>
   StatusCode resp = 200 \<Longrightarrow>
   U body response = (response', Some err) \<Longrightarrow>
     call L c w endpoint method request U response =
       ((Some err, ''''), response', w\<lparr>provider := p', sent := sent w @ [req]\<rparr>)"
  by (simp add: call_def Do_def)

lemma call_request_refused:
  "NewRequestErr L meth (call_url c endpoint) = Some err \<Longrightarrow>
     call_request L c endpoint meth request = Inl err"
  by (simp add: call_request_def Let_def)

text \<open>
  Claim C5, as amended. When the response has status 200, its body is read and is
  decoded without an error, \<^verbatim>\<open>call\<close> returns no error, and as the link the second value
  of the \<^verbatim>\<open>Link\<close> header when the header has exactly two values; when it has none, one,
  or three or more, the link is the empty string. When the body of the response is not
  read, or is not decoded, \<^verbatim>\<open>call\<close> returns that error and the empty link, whatever the
  \<^verbatim>\<open>Link\<close> headers are.
\<close>

theorem call_next_link:
  assumes "call_request L c endpoint meth request = Inr req"
    and "RoundTrip L (provider w) req = (Inr resp, p')"
    and "StatusCode resp = 200"
  shows "(\<forall>body response'. RespBody resp = Inr body \<and> U body response = (response', None) \<longrightarrow>
            fst (call L c w endpoint meth request U response) =
              (None,
               case Values (RespHeader resp) ''Link'' of
                 None \<Rightarrow> ''''
               | Some ls \<Rightarrow> if length ls = 2 then ls ! 1 else '''')
          \<and> (\<forall>l1 l2. Values (RespHeader resp) ''Link'' = Some [l1, l2] \<longrightarrow>
                snd (fst (call L c w endpoint meth request U response)) = l2)
          \<and> (\<forall>ls. Values (RespHeader resp) ''Link'' = Some ls \<and> length ls \<noteq> 2 \<longrightarrow>
                snd (fst (call L c w endpoint meth request U response)) = '''')
          \<and> (Values (RespHeader resp) ''Link'' = None \<longrightarrow>
                snd (fst (call L c w endpoint meth request U response)) = ''''))
       \<and> (\<forall>body response' err. RespBody resp = Inr body \<and> U body response = (response', Some err) \<longrightarrow>
            fst (call L c w endpoint meth request U response) = (Some err, ''''))
       \<and> (\<forall>err. RespBody resp = Inl err \<longrightarrow>
            fst (call L c w endpoint meth request U response) = (Some err, ''''))"
proof (intro conjI allI impI)
  fix body response'
  assume h: "RespBody resp = Inr body \<and> U body response = (response', None)"
  then have b: "RespBody resp = Inr body" and d: "U body response = (response', None)" by simp_all
  note ok = call_ok [where U = U and response = response, OF assms(1,2) b assms(3) d]
  show "fst (call L c w endpoint meth request U response) =
              (None,
               case Values (RespHeader resp) ''Link'' of
                 None \<Rightarrow> ''''
               | Some ls \<Rightarrow> if length ls = 2 then ls ! 1 else '''')"
    using ok by simp
  show "Values (RespHeader resp) ''Link'' = None \<Longrightarrow>
          snd (fst (call L c w endpoint meth request U response)) = ''''"
    using ok by simp
  show "snd (fst (call L c w endpoint meth request U response)) = l2"
    if "Values (RespHeader resp) ''Link'' = Some [l1, l2]" for l1 l2
    using ok that by simp
  show "snd (fst (call L c w endpoint meth request U response)) = ''''"
    if "Values (RespHeader resp) ''Link'' = Some ls \<and> length ls \<noteq> 2" for ls
    using ok that by simp
next
  fix body response' err
  assume "RespBody resp = Inr body \<and> U body response = (response', Some err)"
  then have b: "RespBody resp = Inr body" and d: "U body response = (response', Some err)" by simp_all
  from call_decode_error [where U = U and response = response, OF assms(1,2) b assms(3) d]
  show "fst (call L c w endpoint meth request U response) = (Some err, '''')" by simp
next
  fix err
  assume b: "RespBody resp = Inl err"
  from call_read_error [OF assms(1,2) b, of U response]
  show "fst (call L c w endpoint meth request U response) = (Some err, '''')" by simp
qed

text \<open>
  The claim as it was stated fails: a response with status 200 and two \<^verbatim>\<open>Link\<close> headers
  whose body is not decoded gives the empty link, not the second header.
\<close>

theorem call_next_link_counterexample:
  "StatusCode undecodable_response = 200
   \<and> Values (RespHeader undecodable_response) ''Link'' =
       Some [''<https://acme.okta.com/api/v1/users/u1/groups?limit=200>; rel=self'',
             ''<https://acme.okta.com/api/v1/users/u1/groups?after=g2>; rel=next'']
   \<and> RespBody undecodable_response = Inr ''oops''
   \<and> stub_UnmarshalGroups ''oops'' [] = ([], Some (LibError ''invalid character''))
   \<and> fst (call (stub_lib stub_undecodable) (NewClient ''acme'') stub_world ''users/u1/groups?limit=200''
            ''GET'' NoRequest stub_UnmarshalGroups []) =
       (Some (LibError ''invalid character''), '''')"
  by (simp add: call_def call_request_def call_url_def Do_def stub_lib_def stub_undecodable_def
      undecodable_response_def stub_UnmarshalGroups_def NewClient_def stub_world_def Values_def
      Add_def stub_Marshal_def Let_def)

text \<open>
  An example: the first page of \<open>stub_pages\<close>, which has two \<^verbatim>\<open>Link\<close> headers and is
  decoded, and the response of \<open>stub_undecodable\<close>, which has them and is not.
\<close>

theorem call_next_link_witness:
  "\<exists>req resp p' req2 p2.
     call_request (stub_lib stub_pages) (NewClient ''acme'') ''users/u1/groups?limit=200'' ''GET''
       NoRequest = Inr req
     \<and> RoundTrip (stub_lib stub_pages) (provider stub_world) req = (Inr resp, p')
     \<and> RespBody resp = Inr ''[g1,g2]'' \<and> StatusCode resp = 200
     \<and> stub_UnmarshalGroups ''[g1,g2]'' [] = ([''g1'', ''g2''], None)
     \<and> Values (RespHeader resp) ''Link'' =
          Some [''<https://acme.okta.com/api/v1/users/u1/groups?limit=200>; rel=self'',
                ''<https://acme.okta.com/api/v1/users/u1/groups?after=g2>; rel=next'']
     \<and> fst (call (stub_lib stub_pages) (NewClient ''acme'') stub_world ''users/u1/groups?limit=200''
               ''GET'' NoRequest stub_UnmarshalGroups []) =
          (None, ''<https://acme.okta.com/api/v1/users/u1/groups?after=g2>; rel=next'')
     \<and> call_request (stub_lib stub_undecodable) (NewClient ''acme'') ''users/u1/groups?limit=200''
          ''GET'' NoRequest = Inr req2
     \<and> RoundTrip (stub_lib stub_undecodable) (provider stub_world) req2 = (Inr undecodable_response, p2)
     \<and> fst (call (stub_lib stub_undecodable) (NewClient ''acme'') stub_world
               ''users/u1/groups?limit=200'' ''GET'' NoRequest stub_UnmarshalGroups []) =
          (Some (LibError ''invalid character''), '''')"
proof -
  obtain req where r: "call_request (stub_lib stub_pages) (NewClient ''acme'')
      ''users/u1/groups?limit=200'' ''GET'' NoRequest = Inr req"
    by (auto simp: call_request_def stub_lib_def Let_def)
  from call_request_Inr [OF r]
  have u: "URL req = ''https://acme.okta.com/api/v1/users/u1/groups?limit=200''"
    by (simp add: call_url_def NewClient_def)
  obtain resp where t: "RoundTrip (stub_lib stub_pages) (provider stub_world) req = (Inr resp, Suc 0)"
    and resp: "resp = \<lparr>StatusCode = 200,
             RespHeader = [''Link'' \<mapsto> [''<https://acme.okta.com/api/v1/users/u1/groups?limit=200>; rel=self'',
                                        ''<https://acme.okta.com/api/v1/users/u1/groups?after=g2>; rel=next'']],
             RespBody = Inr ''[g1,g2]''\<rparr>"
    by (simp add: stub_lib_def stub_pages_def u stub_world_def)
  have b: "RespBody resp = Inr ''[g1,g2]''" and st: "StatusCode resp = 200"
    by (simp_all add: resp)
  have d: "stub_UnmarshalGroups ''[g1,g2]'' [] = ([''g1'', ''g2''], None)"
    by (simp add: stub_UnmarshalGroups_def)
  have l: "Values (RespHeader resp) ''Link'' =
          Some [''<https://acme.okta.com/api/v1/users/u1/groups?limit=200>; rel=self'',
                ''<https://acme.okta.com/api/v1/users/u1/groups?after=g2>; rel=next'']"
    by (simp add: resp Values_def)
  from call_next_link [where U = stub_UnmarshalGroups and response = "[]", OF r t st] b d have
    "fst (call (stub_lib stub_pages) (NewClient ''acme'') stub_world ''users/u1/groups?limit=200''
               ''GET'' NoRequest stub_UnmarshalGroups []) =
          (None, case Values (RespHeader resp) ''Link'' of
                 None \<Rightarrow> ''''
               | Some ls \<Rightarrow> if length ls = 2 then ls ! 1 else '''')"
    by blast
  then have ok: "fst (call (stub_lib stub_pages) (NewClient ''acme'') stub_world ''users/u1/groups?limit=200''
               ''GET'' NoRequest stub_UnmarshalGroups []) =
          (None, ''<https://acme.okta.com/api/v1/users/u1/groups?after=g2>; rel=next'')"
    by (simp add: l)
  obtain req2 where r2: "call_request (stub_lib stub_undecodable) (NewClient ''acme'')
      ''users/u1/groups?limit=200'' ''GET'' NoRequest = Inr req2"
    by (auto simp: call_request_def stub_lib_def Let_def)
  have t2: "RoundTrip (stub_lib stub_undecodable) (provider stub_world) req2 =
      (Inr undecodable_response, Suc 0)"
    by (simp add: stub_lib_def stub_undecodable_def stub_world_def)
  have st2: "StatusCode undecodable_response = 200" and b2: "RespBody undecodable_response = Inr ''oops''"
    by (simp_all add: undecodable_response_def)
  have d2: "stub_UnmarshalGroups ''oops'' [] = ([], Some (LibError ''invalid character''))"
    by (simp add: stub_UnmarshalGroups_def)
  from call_next_link [where U = stub_UnmarshalGroups and response = "[]", OF r2 t2 st2] b2 d2 have
    bad: "fst (call (stub_lib stub_undecodable) (NewClient ''acme'') stub_world
               ''users/u1/groups?limit=200'' ''GET'' NoRequest stub_UnmarshalGroups []) =
          (Some (LibError ''invalid character''), '''')"
    by blast
  from r t b st d l ok r2 t2 bad show ?thesis by blast
qed

subsection \<open>The loop of Groups\<close>

lemma Groups_loop_Inl: "Groups_body L U c s = Inl r \<Longrightarrow> Groups_loop L U c s = Some r"
  by (subst Groups_loop.simps) simp

lemma Groups_loop_Inr: "Groups_body L U c s = Inr s' \<Longrightarrow> Groups_loop L U c s = Groups_loop L U c s'"
  by (subst Groups_loop.simps) simp

lemma Groups_after_loop:
  "Groups_after L U c n s = Some s' \<Longrightarrow> Groups_loop L U c s = Groups_loop L U c s'"
proof (induction n arbitrary: s)
  case 0
  then show ?case by simp
next
  case (Suc n)
  then obtain s1 where b: "Groups_body L U c s = Inr s1" and a: "Groups_after L U c n s1 = Some s'"
    by (auto split: sum.splits)
  from Suc.IH [OF a] Groups_loop_Inr [OF b] show ?case by simp
qed

lemma Groups_after_exit:
  "Groups_after L U c n s = Some s' \<Longrightarrow> Groups_body L U c s' = Inl r \<Longrightarrow> Groups_loop L U c s = Some r"
  by (simp add: Groups_after_loop Groups_loop_Inl)

lemma Groups_loop_Some_after:
  "Groups_loop L U c s = Some r \<Longrightarrow> \<exists>n s'. Groups_after L U c n s = Some s' \<and> Groups_body L U c s' = Inl r"
proof (induction rule: Groups_loop.raw_induct [rotated 1, consumes 1])
  case (1 loop L U c s r)
  show ?case
  proof (cases "Groups_body L U c s")
    case (Inl r')
    with 1(2) have "r' = r" by simp
    with Inl have "Groups_after L U c 0 s = Some s \<and> Groups_body L U c s = Inl r" by simp
    then show ?thesis by blast
  next
    case (Inr s1)
    with 1(2) have "loop L U c s1 = Some r" by simp
    from 1(1) [OF this] obtain n s' where "Groups_after L U c n s1 = Some s'" "Groups_body L U c s' = Inl r"
      by blast
    with Inr have "Groups_after L U c (Suc n) s = Some s' \<and> Groups_body L U c s' = Inl r" by simp
    then show ?thesis by blast
  qed
qed

lemma Groups_loop_Some_iff:
  "Groups_loop L U c s = Some r \<longleftrightarrow>
     (\<exists>n s'. Groups_after L U c n s = Some s' \<and> Groups_body L U c s' = Inl r)"
  using Groups_loop_Some_after Groups_after_exit by blast

lemma Groups_after_Suc:
  "Groups_after L U c (Suc n) s =
     (case Groups_after L U c n s of
        None \<Rightarrow> None
      | Some s' \<Rightarrow> (case Groups_body L U c s' of Inl r \<Rightarrow> None | Inr s'' \<Rightarrow> Some s''))"
proof (induction n arbitrary: s)
  case 0
  then show ?case by (simp split: sum.splits)
next
  case (Suc n)
  show ?case
  proof (cases "Groups_body L U c s")
    case (Inl r)
    then show ?thesis by simp
  next
    case (Inr s1)
    have "Groups_after L U c (Suc (Suc n)) s = Groups_after L U c (Suc n) s1"
      using Inr by simp
    also have "\<dots> = (case Groups_after L U c n s1 of
        None \<Rightarrow> None
      | Some s' \<Rightarrow> (case Groups_body L U c s' of Inl r \<Rightarrow> None | Inr s'' \<Rightarrow> Some s''))"
      by (rule Suc.IH)
    also have "Groups_after L U c n s1 = Groups_after L U c (Suc n) s"
      using Inr by simp
    finally show ?thesis .
  qed
qed

lemma Groups_loop_None_iff:
  "Groups_loop L U c s = None \<longleftrightarrow> (\<forall>n. \<exists>s'. Groups_after L U c n s = Some s')"
proof
  assume N: "Groups_loop L U c s = None"
  show "\<forall>n. \<exists>s'. Groups_after L U c n s = Some s'"
  proof
    fix n
    show "\<exists>s'. Groups_after L U c n s = Some s'"
    proof (induction n)
      case 0
      show ?case by (rule exI [of _ s]) simp
    next
      case (Suc n)
      then obtain s' where a: "Groups_after L U c n s = Some s'" by blast
      show ?case
      proof (cases "Groups_body L U c s'")
        case (Inl r)
        from Groups_after_exit [OF a Inl] N show ?thesis by simp
      next
        case (Inr s'')
        have "Groups_after L U c (Suc n) s = Some s''"
          using a Inr by (subst Groups_after_Suc) simp
        then show ?thesis by blast
      qed
    qed
  qed
next
  assume A: "\<forall>n. \<exists>s'. Groups_after L U c n s = Some s'"
  show "Groups_loop L U c s = None"
  proof (rule ccontr)
    assume "Groups_loop L U c s \<noteq> None"
    then obtain r where "Groups_loop L U c s = Some r" by blast
    from Groups_loop_Some_after [OF this] obtain n s'
      where a: "Groups_after L U c n s = Some s'" and b: "Groups_body L U c s' = Inl r" by blast
    then have "Groups_after L U c (Suc n) s = None" by (subst Groups_after_Suc) simp
    with A show False by (metis option.distinct(1))
  qed
qed

lemma Groups_body_exit_iff:
  "(\<exists>r. Groups_body L U c (w, response, nextLink) = Inl r) \<longleftrightarrow>
     (fst (fst (call L c w nextLink ''GET'' NoRequest U [])) \<noteq> None
      \<or> Groups_nextLink c (snd (fst (call L c w nextLink ''GET'' NoRequest U []))) = '''')"
  by (auto simp: Groups_body_def Let_def split: prod.splits option.splits)

lemma Groups_body_sent_Inr:
  assumes "Groups_body L U c (w, acc, e) = Inr (w', acc', e')"
  shows "\<exists>req. call_request L c e ''GET'' NoRequest = Inr req \<and> sent w' = sent w @ [req]"
proof -
  obtain err link resp w1 where cl: "call L c w e ''GET'' NoRequest U [] = ((err, link), resp, w1)"
    by (metis prod.exhaust)
  with assms have n: "err = None" and w': "w' = w1\<lparr>stdout := stdout w1 @ [''go next link'']\<rparr>"
    by (auto simp: Groups_body_def Let_def split: option.splits if_splits)
  from cl n have "fst (fst (call L c w e ''GET'' NoRequest U [])) = None" by simp
  from call_None_built [OF this] obtain req where r: "call_request L c e ''GET'' NoRequest = Inr req"
    by blast
  from call_sent_Inr [OF r, of w U "[]"] cl have "sent w1 = sent w @ [req]" by simp
  with w' r show ?thesis by simp
qed

lemma Groups_body_sent_Inl:
  assumes "Groups_body L U c (w, acc, e) = Inl (res, w')"
  shows "sent w' = sent w @ (case call_request L c e ''GET'' NoRequest of
                                Inl err \<Rightarrow> [] | Inr req \<Rightarrow> [req])"
proof -
  obtain err link resp w1 where cl: "call L c w e ''GET'' NoRequest U [] = ((err, link), resp, w1)"
    by (metis prod.exhaust)
  with assms have "w' = w1"
    by (auto simp: Groups_body_def Let_def split: option.splits if_splits)
  with call_sent [of L c w e "''GET''" NoRequest U "[]"] cl show ?thesis by simp
qed

lemma Groups_after_sent:
  "Groups_after L U c n s = Some s' \<Longrightarrow>
     \<exists>reqs. sent (fst s') = sent (fst s) @ reqs \<and> length reqs = n
       \<and> (\<forall>r\<in>set reqs. \<exists>e. call_request L c e ''GET'' NoRequest = Inr r)"
proof (induction n arbitrary: s)
  case 0
  then show ?case by simp
next
  case (Suc n)
  then obtain s1 where b: "Groups_body L U c s = Inr s1" and a: "Groups_after L U c n s1 = Some s'"
    by (auto split: sum.splits)
  obtain w acc e where s: "s = (w, acc, e)" by (metis prod.exhaust)
  obtain w1 acc1 e1 where s1: "s1 = (w1, acc1, e1)" by (metis prod.exhaust)
  from Groups_body_sent_Inr [OF b [unfolded s s1]] obtain req
    where r: "call_request L c e ''GET'' NoRequest = Inr req" and w1: "sent w1 = sent w @ [req]"
    by blast
  from Suc.IH [OF a] obtain reqs where
    q: "sent (fst s') = sent (fst s1) @ reqs" "length reqs = n"
       "\<forall>r\<in>set reqs. \<exists>e. call_request L c e ''GET'' NoRequest = Inr r"
    by blast
  have "sent (fst s') = sent (fst s) @ (req # reqs)"
    using q(1) w1 by (simp add: s s1)
  moreover have "length (req # reqs) = Suc n" using q(2) by simp
  moreover have "\<forall>r\<in>set (req # reqs). \<exists>e. call_request L c e ''GET'' NoRequest = Inr r"
    using q(3) r by auto
  ultimately show ?case by blast
qed

lemma Groups_loop_sent:
  assumes "Groups_loop L U c s = Some (res, w')"
  shows "\<exists>reqs. sent w' = sent (fst s) @ reqs
           \<and> (\<forall>r\<in>set reqs. \<exists>e. call_request L c e ''GET'' NoRequest = Inr r)"
proof -
  from Groups_loop_Some_after [OF assms] obtain n s1
    where a: "Groups_after L U c n s = Some s1" and b: "Groups_body L U c s1 = Inl (res, w')"
    by blast
  obtain w1 acc1 e1 where s1: "s1 = (w1, acc1, e1)" by (metis prod.exhaust)
  from Groups_after_sent [OF a] obtain reqs where
    q: "sent (fst s1) = sent (fst s) @ reqs"
       "\<forall>r\<in>set reqs. \<exists>e. call_request L c e ''GET'' NoRequest = Inr r"
    by blast
  note l = Groups_body_sent_Inl [OF b [unfolded s1]]
  show ?thesis
  proof (cases "call_request L c e1 ''GET'' NoRequest")
    case (Inl err)
    with l q show ?thesis by (auto simp: s1)
  next
    case (Inr req)
    with l q(1) have "sent w' = sent (fst s) @ (reqs @ [req])" by (simp add: s1)
    moreover from Inr q(2) have "\<forall>r\<in>set (reqs @ [req]). \<exists>e. call_request L c e ''GET'' NoRequest = Inr r"
      by auto
    ultimately show ?thesis by blast
  qed
qed

lemma Groups_exit_requests:
  assumes a: "Groups_after L U c n s = Some s'" and b: "Groups_body L U c s' = Inl r"
  shows "length (requests_since (fst s) (snd r)) \<le> Suc n"
proof -
  obtain w1 acc1 e1 where s1: "s' = (w1, acc1, e1)" by (metis prod.exhaust)
  obtain res w' where r: "r = (res, w')" by (metis prod.exhaust)
  from Groups_after_sent [OF a] obtain reqs where
    q: "sent (fst s') = sent (fst s) @ reqs" "length reqs = n"
    by blast
  from Groups_body_sent_Inl [OF b [unfolded s1 r]] q(1)
  have "sent w' = sent (fst s) @ reqs @ (case call_request L c e1 ''GET'' NoRequest of
                                Inl err \<Rightarrow> [] | Inr req \<Rightarrow> [req])"
    by (simp add: s1)
  then show ?thesis using q(2)
    by (simp add: requests_since_def r split: sum.splits)
qed

text \<open>
  Claim C10. A turn of the loop leaves it exactly when \<^verbatim>\<open>call\<close> returns an error or the
  rewritten next link is empty. \<^verbatim>\<open>Groups\<close> returns a result exactly when, after some
  number \<open>n\<close> of turns that went on, a turn leaves the loop with that result, and it
  has then sent at most \<open>n + 1\<close> requests; it never returns exactly when every turn
  goes on, that is, when the provider forever answers with a next link that is not
  rewritten to the empty string.
\<close>

theorem Groups_loop_exits:
  "((\<exists>r. Groups_body L U c (w1, response, nextLink) = Inl r) \<longleftrightarrow>
      (fst (fst (call L c w1 nextLink ''GET'' NoRequest U [])) \<noteq> None
       \<or> Groups_nextLink c (snd (fst (call L c w1 nextLink ''GET'' NoRequest U []))) = ''''))
   \<and> (Groups L U c w userID = Some r \<longleftrightarrow>
        (\<exists>n s'. Groups_after L U c n (w, [], ''users/'' @ userID @ ''/groups?limit=200'') = Some s'
                 \<and> Groups_body L U c s' = Inl r))
   \<and> (\<forall>n s'. Groups_after L U c n (w, [], ''users/'' @ userID @ ''/groups?limit=200'') = Some s'
               \<and> Groups_body L U c s' = Inl r \<longrightarrow>
             length (requests_since w (snd r)) \<le> Suc n)
   \<and> (Groups L U c w userID = None \<longleftrightarrow>
        (\<forall>n. \<exists>s'. Groups_after L U c n (w, [], ''users/'' @ userID @ ''/groups?limit=200'') = Some s'))"
proof (intro conjI allI impI)
  show "(\<exists>r. Groups_body L U c (w1, response, nextLink) = Inl r) \<longleftrightarrow>
      (fst (fst (call L c w1 nextLink ''GET'' NoRequest U [])) \<noteq> None
       \<or> Groups_nextLink c (snd (fst (call L c w1 nextLink ''GET'' NoRequest U []))) = '''')"
    by (rule Groups_body_exit_iff)
  show "Groups L U c w userID = Some r \<longleftrightarrow>
        (\<exists>n s'. Groups_after L U c n (w, [], ''users/'' @ userID @ ''/groups?limit=200'') = Some s'
                 \<and> Groups_body L U c s' = Inl r)"
    unfolding Groups_def by (rule Groups_loop_Some_iff)
  show "Groups L U c w userID = None \<longleftrightarrow>
        (\<forall>n. \<exists>s'. Groups_after L U c n (w, [], ''users/'' @ userID @ ''/groups?limit=200'') = Some s')"
    unfolding Groups_def by (rule Groups_loop_None_iff)
next
  fix n s'
  assume "Groups_after L U c n (w, [], ''users/'' @ userID @ ''/groups?limit=200'') = Some s'
               \<and> Groups_body L U c s' = Inl r"
  then show "length (requests_since w (snd r)) \<le> Suc n"
    using Groups_exit_requests by fastforce
qed

lemma stub_endless_body:
  "\<exists>s'. Groups_body (stub_lib stub_endless) stub_UnmarshalGroups (NewClient ''acme'') s = Inr s'"
proof -
  obtain w acc e where s: "s = (w, acc, e)" by (metis prod.exhaust)
  show ?thesis
    unfolding s
    by (simp add: Groups_body_def call_def call_request_def Do_def stub_lib_def stub_endless_def
        stub_UnmarshalGroups_def NewClient_def Values_def Groups_nextLink_def Let_def)
qed

lemma stub_endless_after:
  "\<exists>s'. Groups_after (stub_lib stub_endless) stub_UnmarshalGroups (NewClient ''acme'') n s = Some s'"
proof (induction n arbitrary: s)
  case 0
  show ?case by (rule exI [of _ s]) simp
next
  case (Suc n)
  from stub_endless_body [of s] obtain s1 where
    "Groups_body (stub_lib stub_endless) stub_UnmarshalGroups (NewClient ''acme'') s = Inr s1"
    by blast
  with Suc [of s1] show ?case by simp
qed

text \<open>
  An example: the three pages of \<open>stub_pages\<close>, where the third turn leaves the loop,
  the provider \<open>stub_endless\<close>, with which \<^verbatim>\<open>Groups\<close> never returns, and the provider
  that answers 401, where the first turn leaves the loop.
\<close>

theorem Groups_loop_exits_witness:
  "(\<exists>r. Groups (stub_lib stub_pages) stub_UnmarshalGroups (NewClient ''acme'') stub_world ''u1'' = Some r
        \<and> fst r = ([''g1'', ''g2'', ''g3'', ''g4'', ''g5''], None)
        \<and> length (requests_since stub_world (snd r)) \<le> 3)
   \<and> Groups (stub_lib stub_endless) stub_UnmarshalGroups (NewClient ''acme'') stub_world ''u1'' = None
   \<and> (\<exists>r. Groups_body (stub_lib stub_unauthorized) stub_UnmarshalGroups (NewClient ''acme'')
             (stub_world, [], ''users/u1/groups?limit=200'') = Inl r)
   \<and> fst (fst (call (stub_lib stub_unauthorized) (NewClient ''acme'') stub_world
                  ''users/u1/groups?limit=200'' ''GET'' NoRequest stub_UnmarshalGroups [])) \<noteq> None"
proof -
  have "\<exists>s2 r. Groups_after (stub_lib stub_pages) stub_UnmarshalGroups (NewClient ''acme'') (Suc (Suc 0))
            (stub_world, [], ''users/'' @ ''u1'' @ ''/groups?limit=200'') = Some s2
          \<and> Groups_body (stub_lib stub_pages) stub_UnmarshalGroups (NewClient ''acme'') s2 = Inl r
          \<and> fst r = ([''g1'', ''g2'', ''g3'', ''g4'', ''g5''], None)"
    by (simp add: Groups_body_def call_def call_request_def call_url_def Do_def stub_lib_def
        stub_pages_def stub_UnmarshalGroups_def NewClient_def stub_world_def Values_def Add_def
        Groups_nextLink_def stub_Marshal_def Let_def)
  then obtain s2 r where
    a: "Groups_after (stub_lib stub_pages) stub_UnmarshalGroups (NewClient ''acme'') (Suc (Suc 0))
            (stub_world, [], ''users/'' @ ''u1'' @ ''/groups?limit=200'') = Some s2"
    and b: "Groups_body (stub_lib stub_pages) stub_UnmarshalGroups (NewClient ''acme'') s2 = Inl r"
    and f: "fst r = ([''g1'', ''g2'', ''g3'', ''g4'', ''g5''], None)"
    by blast
  note T = Groups_loop_exits [where L = "stub_lib stub_pages" and U = stub_UnmarshalGroups
      and c = "NewClient ''acme''" and w = stub_world and userID = "''u1''" and r = r]
  from T a b have g: "Groups (stub_lib stub_pages) stub_UnmarshalGroups (NewClient ''acme'') stub_world ''u1'' = Some r"
    by blast
  from T a b have "length (requests_since stub_world (snd r)) \<le> Suc (Suc (Suc 0))"
    by blast
  then have l: "length (requests_since stub_world (snd r)) \<le> 3" by simp
  have e: "\<forall>n. \<exists>s'. Groups_after (stub_lib stub_endless) stub_UnmarshalGroups (NewClient ''acme'') n
            (stub_world, [], ''users/'' @ ''u1'' @ ''/groups?limit=200'') = Some s'"
    using stub_endless_after by blast
  from Groups_loop_exits [where L = "stub_lib stub_endless" and U = stub_UnmarshalGroups
      and c = "NewClient ''acme''" and w = stub_world and userID = "''u1''"] e
  have n: "Groups (stub_lib stub_endless) stub_UnmarshalGroups (NewClient ''acme'') stub_world ''u1'' = None"
    by blast
  have x: "fst (fst (call (stub_lib stub_unauthorized) (NewClient ''acme'') stub_world
                  ''users/u1/groups?limit=200'' ''GET'' NoRequest stub_UnmarshalGroups [])) \<noteq> None"
    by (simp add: call_def call_request_def Do_def stub_lib_def stub_unauthorized_def Let_def)
  from Groups_loop_exits [where L = "stub_lib stub_unauthorized" and U = stub_UnmarshalGroups
      and c = "NewClient ''acme''" and ?w1.0 = stub_world and response = "[]"
      and nextLink = "''users/u1/groups?limit=200''"] x
  have y: "\<exists>r. Groups_body (stub_lib stub_unauthorized) stub_UnmarshalGroups (NewClient ''acme'')
             (stub_world, [], ''users/u1/groups?limit=200'') = Inl r"
    by blast
  from g f l n x y show ?thesis by blast
qed

lemma Groups_pages_loop:
  "Groups_pages L U c w e ps \<Longrightarrow>
     \<exists>w' reqs. Groups_loop L U c (w, acc, e) = Some ((acc @ concat (map fst ps), None), w')
        \<and> sent w' = sent w @ reqs
        \<and> map Method reqs = replicate (length ps) ''GET''
        \<and> map URL reqs = map (call_url c) (e # map (\<lambda>p. Groups_nextLink c (snd p)) (butlast ps))"
proof (induction ps arbitrary: w acc e)
  case Nil
  then show ?case by simp
next
  case (Cons p ps)
  obtain items link where p: "p = (items, link)" by (metis prod.exhaust)
  obtain err link' resp w1 where cl: "call L c w e ''GET'' NoRequest U [] = ((err, link'), resp, w1)"
    by (metis prod.exhaust)
  from Cons.prems have ok: "err = None" "resp = items" "link' = link"
    and rest: "if Groups_nextLink c link = '''' then ps = []
               else Groups_pages L U c (w1\<lparr>stdout := stdout w1 @ [''go next link'']\<rparr>)
                      (Groups_nextLink c link) ps"
    by (simp_all add: p cl)
  from cl ok have cl': "call L c w e ''GET'' NoRequest U [] = ((None, link), items, w1)" by simp
  from call_None_sent [OF cl'] obtain req where
    r: "sent w1 = sent w @ [req]" "Method req = ''GET''" "URL req = call_url c e"
    by blast
  show ?case
  proof (cases "Groups_nextLink c link = ''''")
    case True
    with rest have ps: "ps = []" by simp
    from cl' True have "Groups_body L U c (w, acc, e) = Inl ((acc @ items, None), w1)"
      by (simp add: Groups_body_def Let_def)
    from Groups_loop_Inl [OF this]
    have "Groups_loop L U c (w, acc, e) = Some ((acc @ concat (map fst (p # ps)), None), w1)"
      by (simp add: ps p)
    moreover have "map Method [req] = replicate (length (p # ps)) ''GET''"
      using r by (simp add: ps)
    moreover have "map URL [req] =
        map (call_url c) (e # map (\<lambda>p. Groups_nextLink c (snd p)) (butlast (p # ps)))"
      using r by (simp add: ps)
    ultimately show ?thesis using r(1) by blast
  next
    case False
    with rest have gp: "Groups_pages L U c (w1\<lparr>stdout := stdout w1 @ [''go next link'']\<rparr>)
                      (Groups_nextLink c link) ps"
      by simp
    then have ne: "ps \<noteq> []" by auto
    from cl' False have "Groups_body L U c (w, acc, e) =
        Inr (w1\<lparr>stdout := stdout w1 @ [''go next link'']\<rparr>, acc @ items, Groups_nextLink c link)"
      by (simp add: Groups_body_def Let_def)
    from Groups_loop_Inr [OF this]
    have step: "Groups_loop L U c (w, acc, e) =
        Groups_loop L U c (w1\<lparr>stdout := stdout w1 @ [''go next link'']\<rparr>, acc @ items,
                           Groups_nextLink c link)" .
    from Cons.IH [OF gp, of "acc @ items"] obtain w' reqs where
      ih: "Groups_loop L U c (w1\<lparr>stdout := stdout w1 @ [''go next link'']\<rparr>, acc @ items,
                           Groups_nextLink c link) =
             Some (((acc @ items) @ concat (map fst ps), None), w')"
          "sent w' = sent (w1\<lparr>stdout := stdout w1 @ [''go next link'']\<rparr>) @ reqs"
          "map Method reqs = replicate (length ps) ''GET''"
          "map URL reqs = map (call_url c)
              (Groups_nextLink c link # map (\<lambda>p. Groups_nextLink c (snd p)) (butlast ps))"
      by blast
    have "Groups_loop L U c (w, acc, e) = Some ((acc @ concat (map fst (p # ps)), None), w')"
      using step ih(1) by (simp add: p)
    moreover have "sent w' = sent w @ (req # reqs)"
      using ih(2) r(1) by simp
    moreover have "map Method (req # reqs) = replicate (length (p # ps)) ''GET''"
      using ih(3) r(2) by simp
    moreover have "map URL (req # reqs) =
        map (call_url c) (e # map (\<lambda>p. Groups_nextLink c (snd p)) (butlast (p # ps)))"
      using ih(4) r(3) ne by (simp add: p)
    ultimately show ?thesis by blast
  qed
qed

text \<open>
  Claim C1. When the provider answers the requests of \<^verbatim>\<open>Groups(userID)\<close> with the
  successful pages \<open>ps\<close>, the last of which, and no other, has a next link that is
  rewritten to the empty string, then \<^verbatim>\<open>Groups\<close> returns, without an error, the items
  of all the pages, concatenated in the order of the pages; it has sent one request per
  page, each a GET, the first to \<^verbatim>\<open>users/{userID}/groups?limit=200\<close> under the base URL
  and each further one to the rewritten next link of the page before.
\<close>

theorem Groups_concatenates_pages:
  assumes "Groups_pages L U c w (''users/'' @ userID @ ''/groups?limit=200'') ps"
  shows "\<exists>w'. Groups L U c w userID = Some ((concat (map fst ps), None), w')
           \<and> length (requests_since w w') = length ps
           \<and> map Method (requests_since w w') = replicate (length ps) ''GET''
           \<and> map URL (requests_since w w') =
               map (\<lambda>e. ''https://'' @ org c @ ''.'' @ Url c @ ''/api/v1/'' @ e)
                 ((''users/'' @ userID @ ''/groups?limit=200'')
                  # map (\<lambda>p. Groups_nextLink c (snd p)) (butlast ps))"
proof -
  from Groups_pages_loop [OF assms, of "[]"] obtain w' reqs where
    g: "Groups_loop L U c (w, [], ''users/'' @ userID @ ''/groups?limit=200'') =
          Some (([] @ concat (map fst ps), None), w')"
    and s: "sent w' = sent w @ reqs"
    and m: "map Method reqs = replicate (length ps) ''GET''"
    and u: "map URL reqs = map (call_url c) ((''users/'' @ userID @ ''/groups?limit=200'')
                  # map (\<lambda>p. Groups_nextLink c (snd p)) (butlast ps))"
    by blast
  from s have rs: "requests_since w w' = reqs" by (simp add: requests_since_def)
  from m have "length reqs = length ps"
    by (metis length_map length_replicate)
  moreover have "call_url c = (\<lambda>e. ''https://'' @ org c @ ''.'' @ Url c @ ''/api/v1/'' @ e)"
    by (rule ext) (simp add: call_url_def)
  ultimately show ?thesis using g m u rs by (auto simp: Groups_def)
qed

text \<open>An example: the three pages of \<open>stub_pages\<close>, fetched with three requests.\<close>

theorem Groups_concatenates_pages_witness:
  "Groups_pages (stub_lib stub_pages) stub_UnmarshalGroups (NewClient ''acme'') stub_world
     ''users/u1/groups?limit=200''
     [([''g1'', ''g2''], ''<https://acme.okta.com/api/v1/users/u1/groups?after=g2>; rel=next''),
      ([''g3'', ''g4''], ''<https://acme.okta.com/api/v1/users/u1/groups?after=g4>; rel=next''),
      ([''g5''], '''')]
   \<and> (\<exists>w'. Groups (stub_lib stub_pages) stub_UnmarshalGroups (NewClient ''acme'') stub_world ''u1'' =
               Some (([''g1'', ''g2'', ''g3'', ''g4'', ''g5''], None), w')
             \<and> length (requests_since stub_world w') = 3
             \<and> map Method (requests_since stub_world w') = [''GET'', ''GET'', ''GET'']
             \<and> map URL (requests_since stub_world w') =
                 [''https://acme.okta.com/api/v1/users/u1/groups?limit=200'',
                  ''https://acme.okta.com/api/v1/users/u1/groups?after=g2'',
                  ''https://acme.okta.com/api/v1/users/u1/groups?after=g4''])"
proof -
  have h: "Groups_pages (stub_lib stub_pages) stub_UnmarshalGroups (NewClient ''acme'') stub_world
     (''users/'' @ ''u1'' @ ''/groups?limit=200'')
     [([''g1'', ''g2''], ''<https://acme.okta.com/api/v1/users/u1/groups?after=g2>; rel=next''),
      ([''g3'', ''g4''], ''<https://acme.okta.com/api/v1/users/u1/groups?after=g4>; rel=next''),
      ([''g5''], '''')]"
    by (simp add: call_def call_request_def call_url_def Do_def stub_lib_def
        stub_pages_def stub_UnmarshalGroups_def NewClient_def stub_world_def Values_def Add_def
        Groups_nextLink_def stub_Marshal_def Let_def)
  have n1: "Groups_nextLink (NewClient ''acme'')
              ''<https://acme.okta.com/api/v1/users/u1/groups?after=g2>; rel=next'' =
            ''users/u1/groups?after=g2''"
    and n2: "Groups_nextLink (NewClient ''acme'')
              ''<https://acme.okta.com/api/v1/users/u1/groups?after=g4>; rel=next'' =
            ''users/u1/groups?after=g4''"
    by (simp_all add: Groups_nextLink_def NewClient_def)
  from Groups_concatenates_pages [OF h] h show ?thesis
    by (simp add: n1 n2 numeral_3_eq_3) (simp add: NewClient_def)
qed

text \<open>
  Claim C2. When, after \<open>n\<close> turns that went on, the \<^verbatim>\<open>call\<close> of the next turn returns
  an error, \<^verbatim>\<open>Groups\<close> returns that error with the destination of that call, not with
  the groups \<open>acc\<close> accumulated so far. When the error is a transport error or a status
  other than 200, that destination is the empty list it was created as.
\<close>

theorem Groups_error_returns_last_page:
  assumes "Groups_after L U c n (w, [], ''users/'' @ userID @ ''/groups?limit=200'') =
             Some (wn, acc, endpoint)"
    and "call L c wn endpoint ''GET'' NoRequest U [] = ((Some err, link), resp, w')"
  shows "Groups L U c w userID = Some ((resp, Some err), w')
       \<and> (\<forall>req terr p'. call_request L c endpoint ''GET'' NoRequest = Inr req
              \<and> RoundTrip L (provider wn) req = (Inl terr, p') \<longrightarrow>
            resp = [] \<and> err = terr)
       \<and> (\<forall>req r p' body. call_request L c endpoint ''GET'' NoRequest = Inr req
              \<and> RoundTrip L (provider wn) req = (Inr r, p')
              \<and> RespBody r = Inr body \<and> StatusCode r \<noteq> 200 \<longrightarrow>
            resp = [] \<and> (\<exists>e. err = ApiError e \<and> HTTPCode e = StatusCode r))"
proof (intro conjI allI impI; (elim conjE)?)
  from assms(2) have "Groups_body L U c (wn, acc, endpoint) = Inl ((resp, Some err), w')"
    by (simp add: Groups_body_def)
  from Groups_after_exit [OF assms(1) this]
  show "Groups L U c w userID = Some ((resp, Some err), w')"
    by (simp add: Groups_def)
next
  fix req terr p'
  assume "call_request L c endpoint ''GET'' NoRequest = Inr req"
    and "RoundTrip L (provider wn) req = (Inl terr, p')"
  from call_transport_error [OF this, of U "[]"] assms(2)
  show "resp = []" and "err = terr" by simp_all
next
  fix req r p' body
  assume "call_request L c endpoint ''GET'' NoRequest = Inr req"
    and "RoundTrip L (provider wn) req = (Inr r, p')"
    and "RespBody r = Inr body" and "StatusCode r \<noteq> 200"
  from call_status_error [OF this, of U "[]"] assms(2)
  show "resp = []" and "\<exists>e. err = ApiError e \<and> HTTPCode e = StatusCode r" by auto
qed

text \<open>
  An example: the first page of \<open>stub_broken\<close> has two groups, its second page is a
  status 500, and \<^verbatim>\<open>Groups\<close> returns the error with no group.
\<close>

theorem Groups_error_returns_last_page_witness:
  "\<exists>wn w' e req r p'.
     Groups_after (stub_lib stub_broken) stub_UnmarshalGroups (NewClient ''acme'') (Suc 0)
       (stub_world, [], ''users/u1/groups?limit=200'') =
       Some (wn, [''g1'', ''g2''], ''users/u1/groups?after=g2'')
     \<and> call (stub_lib stub_broken) (NewClient ''acme'') wn ''users/u1/groups?after=g2'' ''GET''
           NoRequest stub_UnmarshalGroups [] = ((Some (ApiError e), ''''), [], w')
     \<and> call_request (stub_lib stub_broken) (NewClient ''acme'') ''users/u1/groups?after=g2'' ''GET''
           NoRequest = Inr req
     \<and> RoundTrip (stub_lib stub_broken) (provider wn) req = (Inr r, p')
     \<and> RespBody r = Inr ''Internal Server Error'' \<and> StatusCode r = 500
     \<and> HTTPCode e = 500
     \<and> Groups (stub_lib stub_broken) stub_UnmarshalGroups (NewClient ''acme'') stub_world ''u1'' =
         Some (([], Some (ApiError e)), w')"
proof -
  have "\<exists>wn. Groups_after (stub_lib stub_broken) stub_UnmarshalGroups (NewClient ''acme'') (Suc 0)
       (stub_world, [], ''users/'' @ ''u1'' @ ''/groups?limit=200'') =
       Some (wn, [''g1'', ''g2''], ''users/u1/groups?after=g2'')"
    by (simp add: Groups_body_def call_def call_request_def call_url_def Do_def stub_lib_def
        stub_pages_def stub_broken_def stub_UnmarshalGroups_def NewClient_def stub_world_def
        Values_def Add_def Groups_nextLink_def stub_Marshal_def Let_def)
  then obtain wn where a: "Groups_after (stub_lib stub_broken) stub_UnmarshalGroups (NewClient ''acme'')
       (Suc 0) (stub_world, [], ''users/'' @ ''u1'' @ ''/groups?limit=200'') =
       Some (wn, [''g1'', ''g2''], ''users/u1/groups?after=g2'')"
    by blast
  obtain req where q: "call_request (stub_lib stub_broken) (NewClient ''acme'')
      ''users/u1/groups?after=g2'' ''GET'' NoRequest = Inr req"
    by (auto simp: call_request_def stub_lib_def Let_def)
  from call_request_Inr [OF q]
  have u: "URL req = ''https://acme.okta.com/api/v1/users/u1/groups?after=g2''"
    by (simp add: call_url_def NewClient_def)
  obtain r p' where t: "RoundTrip (stub_lib stub_broken) (provider wn) req = (Inr r, p')"
    and b: "RespBody r = Inr ''Internal Server Error''" and st: "StatusCode r = 500"
    by (simp add: stub_lib_def stub_broken_def u)
  from st have st': "StatusCode r \<noteq> 200" by simp
  from call_status_error [OF q t b st', of stub_UnmarshalGroups "[]"] st
  obtain e w' where cl: "call (stub_lib stub_broken) (NewClient ''acme'') wn ''users/u1/groups?after=g2''
      ''GET'' NoRequest stub_UnmarshalGroups [] = ((Some (ApiError e), ''''), [], w')"
    and e: "HTTPCode e = 500"
    by simp
  from Groups_error_returns_last_page [OF a cl]
  have "Groups (stub_lib stub_broken) stub_UnmarshalGroups (NewClient ''acme'') stub_world ''u1'' =
         Some (([], Some (ApiError e)), w')"
    by blast
  with a cl q t b st e show ?thesis by auto
qed

subsection \<open>The rewriting of the next link\<close>

lemma Replace_absent:
  "a \<notin> set s \<Longrightarrow> Replace s (a # as) new = s"
  by (induction s) auto

lemma Replace_gt:
  "Replace s ''>'' '''' = filter (\<lambda>x. x \<noteq> CHR ''>'') s"
  by (induction s) auto

lemma Replace_at_front:
  "old \<noteq> [] \<Longrightarrow> Replace (old @ s) old new = new @ Replace s old new"
  by (cases old) auto

lemma Split_not_Nil: "Split s [x] \<noteq> []"
  by (induction s) (auto split: list.splits)

lemma Split_hd_append:
  "x \<notin> set s \<Longrightarrow> hd (Split (s @ t) [x]) = s @ hd (Split t [x])"
proof (induction s)
  case Nil
  then show ?case by simp
next
  case (Cons a s)
  then have "a \<noteq> x" and ih: "hd (Split (s @ t) [x]) = s @ hd (Split t [x])" by auto
  obtain p ps where sp: "Split (s @ t) [x] = p # ps"
    using Split_not_Nil [of "s @ t" x] by (cases "Split (s @ t) [x]") auto
  from \<open>a \<noteq> x\<close> sp ih show ?case by simp
qed

lemma Split_hd_params:
  assumes "x \<notin> set s" and "params = [] \<or> hd params = x"
  shows "hd (Split (s @ params) [x]) = s"
proof -
  have "hd (Split params [x]) = []"
    using assms(2) by (cases params) auto
  with Split_hd_append [OF assms(1)] show ?thesis by simp
qed

lemma first_occurrence_unique:
  assumes "x \<notin> set xs" and "x \<notin> set ys" and "xs @ x # as = ys @ x # bs"
  shows "xs = ys"
proof -
  have "takeWhile (\<lambda>c. c \<noteq> x) (xs @ x # as) = xs"
    using assms(1) by (auto simp: takeWhile_tail)
  moreover have "takeWhile (\<lambda>c. c \<noteq> x) (ys @ x # bs) = ys"
    using assms(2) by (auto simp: takeWhile_tail)
  ultimately show ?thesis using assms(3) by simp
qed

lemma base_not_prefix:
  assumes "\<not> prefix ''okta.com/api/v1/'' (u @ ''/api/v1/'')"
  shows "\<not> prefix ''okta.com/api/v1/'' (u @ ''/api/v1/'' @ t)"
proof
  define k where "k = ''okta.com''"
  define a where "a = ''api/v1/''"
  have K: "''okta.com/api/v1/'' = k @ CHR ''/'' # a" by (simp add: k_def a_def)
  have W: "''/api/v1/'' = CHR ''/'' # a" by (simp add: a_def)
  have lk: "length k = 8" and la: "length a = 7" by (simp_all add: k_def a_def)
  assume "prefix ''okta.com/api/v1/'' (u @ ''/api/v1/'' @ t)"
  then have "prefix (k @ CHR ''/'' # a) (u @ ''/api/v1/'' @ t)"
    by (simp only: K)
  then have p: "prefix (k @ CHR ''/'' # a) ((u @ CHR ''/'' # a) @ t)"
    by (simp only: W append_assoc)
  from assms have "\<not> prefix (k @ CHR ''/'' # a) (u @ ''/api/v1/'')"
    by (simp only: K simp_thms)
  then have np: "\<not> prefix (k @ CHR ''/'' # a) (u @ CHR ''/'' # a)"
    by (simp only: W simp_thms)
  from p np obtain us where us: "k @ CHR ''/'' # a = (u @ CHR ''/'' # a) @ us"
    unfolding prefix_append by blast
  then have "length (k @ CHR ''/'' # a) = length ((u @ CHR ''/'' # a) @ us)" by simp
  then have "length u \<le> 8" by (simp add: lk la)
  have "length u \<noteq> 8"
  proof
    assume "length u = 8"
    from us have "k @ (CHR ''/'' # a) = u @ ((CHR ''/'' # a) @ us)" by simp
    moreover have "length k = length u" using \<open>length u = 8\<close> lk by simp
    ultimately have "u = k"
      using append_eq_append_conv [of k u "CHR ''/'' # a" "(CHR ''/'' # a) @ us"] by blast
    with us have "us = []" by simp
    with us np show False by simp
  qed
  with \<open>length u \<le> 8\<close> have lt: "length u < length k" by (simp add: lk)
  have "(k @ CHR ''/'' # a) ! length u = ((u @ CHR ''/'' # a) @ us) ! length u"
    by (simp only: us)
  then have "k ! length u = CHR ''/''"
    using lt by (simp add: nth_append)
  moreover have "k ! length u \<in> set k" using lt by (rule nth_mem)
  ultimately have "CHR ''/'' \<in> set k" by simp
  then show False by (simp add: k_def)
qed

lemma domain_base_not_prefix:
  assumes "u \<noteq> ''okta.com''" and "CHR ''/'' \<notin> set u"
  shows "\<not> prefix ''okta.com/api/v1/'' (u @ ''/api/v1/'')"
proof
  define k where "k = ''okta.com''"
  define a where "a = ''api/v1/''"
  have K: "''okta.com/api/v1/'' = k @ CHR ''/'' # a" by (simp add: k_def a_def)
  have W: "''/api/v1/'' = CHR ''/'' # a" by (simp add: a_def)
  assume "prefix ''okta.com/api/v1/'' (u @ ''/api/v1/'')"
  then have "prefix (k @ CHR ''/'' # a) (u @ ''/api/v1/'')" by (simp only: K)
  then have "prefix (k @ CHR ''/'' # a) (u @ CHR ''/'' # a)" by (simp only: W)
  then obtain zs where "u @ CHR ''/'' # a = (k @ CHR ''/'' # a) @ zs"
    unfolding prefix_def by blast
  then have eq: "u @ CHR ''/'' # a = k @ CHR ''/'' # (a @ zs)" by simp
  have "CHR ''/'' \<notin> set k" by (simp add: k_def)
  from first_occurrence_unique [OF assms(2) this eq] have "u = k" .
  with assms(1) show False by (simp add: k_def)
qed

lemma Groups_nextLink_eq:
  "Groups_nextLink c link =
     filter (\<lambda>x. x \<noteq> CHR ''>'')
       (Replace (hd (Split link '';'')) (''<https://'' @ org c @ ''.okta.com/api/v1/'') '''')"
  by (simp add: Groups_nextLink_def Let_def Replace_gt del: Replace.simps Split.simps)

lemma Groups_nextLink_okta:
  assumes "CHR ''<'' \<notin> set rest" and "CHR '';'' \<notin> set (org c @ rest)"
    and "params = '''' \<or> hd params = CHR '';''"
  shows "Groups_nextLink c (''<https://'' @ org c @ ''.okta.com/api/v1/'' @ rest @ ''>'' @ params) =
           filter (\<lambda>x. x \<noteq> CHR ''>'') rest"
proof -
  define P where "P = ''<https://'' @ org c @ ''.okta.com/api/v1/''"
  have P: "P \<noteq> []" by (simp add: P_def)
  have "CHR '';'' \<notin> set (P @ rest @ ''>'')"
    using assms(2) by (simp add: P_def)
  from Split_hd_params [OF this assms(3)]
  have hd: "hd (Split ((P @ rest @ ''>'') @ params) '';'') = P @ rest @ ''>''" .
  have "CHR ''<'' \<notin> set (rest @ ''>'')" using assms(1) by simp
  then have "Replace (rest @ ''>'') (CHR ''<'' # (''https://'' @ org c @ ''.okta.com/api/v1/'')) ''''
      = rest @ ''>''"
    by (rule Replace_absent)
  then have r: "Replace (rest @ ''>'') P '''' = rest @ ''>''" by (simp add: P_def)
  have "Replace (P @ rest @ ''>'') P '''' = rest @ ''>''"
    using Replace_at_front [OF P, of "rest @ ''>''" "''''"] r by simp
  with hd have "Groups_nextLink c ((P @ rest @ ''>'') @ params) = filter (\<lambda>x. x \<noteq> CHR ''>'') rest"
    unfolding Groups_nextLink_eq P_def [symmetric] by simp
  then show ?thesis by (simp add: P_def)
qed

lemma Groups_nextLink_other_base:
  assumes "\<not> prefix ''okta.com/api/v1/'' (Url c @ ''/api/v1/'')"
    and "CHR ''<'' \<notin> set (org c @ Url c @ rest)" and "CHR '';'' \<notin> set (org c @ Url c @ rest)"
    and "params = '''' \<or> hd params = CHR '';''"
  shows "Groups_nextLink c (''<https://'' @ org c @ ''.'' @ Url c @ ''/api/v1/'' @ rest @ ''>'' @ params) =
           filter (\<lambda>x. x \<noteq> CHR ''>'') (''<https://'' @ org c @ ''.'' @ Url c @ ''/api/v1/'' @ rest)"
proof -
  define P where "P = ''<https://'' @ org c @ ''.okta.com/api/v1/''"
  define T where "T = ''https://'' @ org c @ ''.'' @ Url c @ ''/api/v1/'' @ rest @ ''>''"
  define h where "h = ''<https://'' @ org c @ ''.''"
  have S: "''<https://'' @ org c @ ''.'' @ Url c @ ''/api/v1/'' @ rest @ ''>'' @ params
             = (CHR ''<'' # T) @ params"
    by (simp add: T_def)
  have "CHR '';'' \<notin> set (CHR ''<'' # T)"
    using assms(3) by (simp add: T_def)
  from Split_hd_params [OF this assms(4)]
  have hd: "hd (Split ((CHR ''<'' # T) @ params) '';'') = CHR ''<'' # T" .
  have Ph: "P = h @ ''okta.com/api/v1/''" by (simp add: P_def h_def)
  have Th: "CHR ''<'' # T = h @ (Url c @ ''/api/v1/'' @ (rest @ ''>''))" by (simp add: T_def h_def)
  have np: "\<not> prefix P (CHR ''<'' # T)"
    unfolding Ph Th same_prefix_prefix by (rule base_not_prefix [OF assms(1)])
  have "CHR ''<'' \<notin> set T" using assms(2) by (simp add: T_def)
  then have "Replace T (CHR ''<'' # (''https://'' @ org c @ ''.okta.com/api/v1/'')) '''' = T"
    by (rule Replace_absent)
  then have r: "Replace T P '''' = T" by (simp add: P_def)
  have P: "P \<noteq> []" by (simp add: P_def)
  have "Replace (CHR ''<'' # T) P '''' = CHR ''<'' # T"
    using np r P by simp
  with hd have "Groups_nextLink c ((CHR ''<'' # T) @ params) =
      filter (\<lambda>x. x \<noteq> CHR ''>'') (CHR ''<'' # T)"
    unfolding Groups_nextLink_eq P_def [symmetric] by simp
  then show ?thesis unfolding S by (simp add: T_def)
qed

text \<open>
  Claim C9, as amended. The rewriting of a next link does not depend on the client's
  \<^verbatim>\<open>Url\<close>: the prefix it strips is \<^verbatim>\<open><https://{org}.okta.com/api/v1/\<close>. A link \<^verbatim>\<open><URL>\<close>,
  alone or followed by parameters after a semicolon, whose URL starts with
  \<^verbatim>\<open>https://{org}.okta.com/api/v1/\<close> is rewritten to the rest of the URL. For a client whose
  base URL \<^verbatim>\<open>https://{org}.{Url}/api/v1/\<close> does not itself start with
  \<^verbatim>\<open>https://{org}.okta.com/api/v1/\<close>, the link whose URL starts with the client's base URL
  keeps its \<^verbatim>\<open><https://{org}.{Url}/api/v1/\<close>: it loses its \<^verbatim>\<open>>\<close> characters and nothing
  else. Here \<^verbatim>\<open><\<close> and \<^verbatim>\<open>;\<close> occur in the link only as the delimiters of the URL and of
  the parameters. The condition on the base URL holds for every \<^verbatim>\<open>Url\<close> other than
  \<^verbatim>\<open>okta.com\<close> that has no \<^verbatim>\<open>/\<close>, as a domain name has none.
\<close>

theorem Groups_nextLink_fixed_domain:
  "Groups_nextLink (c\<lparr>Url := u\<rparr>) link = Groups_nextLink c link
   \<and> (CHR ''<'' \<notin> set rest \<and> CHR '';'' \<notin> set (org c @ rest)
        \<and> (params = '''' \<or> hd params = CHR '';'') \<longrightarrow>
      Groups_nextLink c (''<https://'' @ org c @ ''.okta.com/api/v1/'' @ rest @ ''>'' @ params) =
        filter (\<lambda>x. x \<noteq> CHR ''>'') rest)
   \<and> (\<not> prefix ''okta.com/api/v1/'' (Url c @ ''/api/v1/'')
        \<and> CHR ''<'' \<notin> set (org c @ Url c @ rest) \<and> CHR '';'' \<notin> set (org c @ Url c @ rest)
        \<and> (params = '''' \<or> hd params = CHR '';'') \<longrightarrow>
      Groups_nextLink c (''<https://'' @ org c @ ''.'' @ Url c @ ''/api/v1/'' @ rest @ ''>'' @ params) =
        filter (\<lambda>x. x \<noteq> CHR ''>'') (''<https://'' @ org c @ ''.'' @ Url c @ ''/api/v1/'' @ rest))
   \<and> (Url c \<noteq> ''okta.com'' \<and> CHR ''/'' \<notin> set (Url c) \<longrightarrow>
        \<not> prefix ''okta.com/api/v1/'' (Url c @ ''/api/v1/''))"
proof (intro conjI impI; (elim conjE)?)
  show "Groups_nextLink (c\<lparr>Url := u\<rparr>) link = Groups_nextLink c link"
    by (simp add: Groups_nextLink_eq del: Replace.simps Split.simps)
next
  assume "CHR ''<'' \<notin> set rest" and "CHR '';'' \<notin> set (org c @ rest)"
    and "params = '''' \<or> hd params = CHR '';''"
  then show "Groups_nextLink c (''<https://'' @ org c @ ''.okta.com/api/v1/'' @ rest @ ''>'' @ params) =
        filter (\<lambda>x. x \<noteq> CHR ''>'') rest"
    by (rule Groups_nextLink_okta)
next
  assume "\<not> prefix ''okta.com/api/v1/'' (Url c @ ''/api/v1/'')"
    and "CHR ''<'' \<notin> set (org c @ Url c @ rest)" and "CHR '';'' \<notin> set (org c @ Url c @ rest)"
    and "params = '''' \<or> hd params = CHR '';''"
  then show "Groups_nextLink c (''<https://'' @ org c @ ''.'' @ Url c @ ''/api/v1/'' @ rest @ ''>'' @ params) =
        filter (\<lambda>x. x \<noteq> CHR ''>'') (''<https://'' @ org c @ ''.'' @ Url c @ ''/api/v1/'' @ rest)"
    by (rule Groups_nextLink_other_base)
next
  assume "Url c \<noteq> ''okta.com''" and "CHR ''/'' \<notin> set (Url c)"
  then show "\<not> prefix ''okta.com/api/v1/'' (Url c @ ''/api/v1/'')"
    by (rule domain_base_not_prefix)
qed

text \<open>
  The claim as it was stated fails. A \<^verbatim>\<open>Url\<close> other than \<^verbatim>\<open>okta.com\<close> that continues
  \<^verbatim>\<open>okta.com\<close> with a path starting with \<^verbatim>\<open>/api/v1/\<close> makes the client's own base URL start
  with the stripped prefix, so its link is cut; and a link of the domain
  \<^verbatim>\<open>oktapreview.com\<close> whose URL has a semicolon loses what follows the semicolon as well as
  its \<^verbatim>\<open>>\<close>, and one whose URL has the stripped prefix further on loses that prefix.
\<close>

theorem Groups_nextLink_fixed_domain_counterexample:
  "Url ((NewClient ''acme'')\<lparr>Url := ''okta.com/api/v1/x''\<rparr>) \<noteq> ''okta.com''
   \<and> Groups_nextLink ((NewClient ''acme'')\<lparr>Url := ''okta.com/api/v1/x''\<rparr>)
         ''<https://acme.okta.com/api/v1/x/api/v1/users/u1>; rel=next'' = ''x/api/v1/users/u1''
   \<and> Url ((NewClient ''acme'')\<lparr>Url := ''oktapreview.com''\<rparr>) \<noteq> ''okta.com''
   \<and> Groups_nextLink ((NewClient ''acme'')\<lparr>Url := ''oktapreview.com''\<rparr>)
         ''<https://acme.oktapreview.com/api/v1/users/u1/groups?after=a;b>; rel=next'' =
       ''<https://acme.oktapreview.com/api/v1/users/u1/groups?after=a''
   \<and> Groups_nextLink ((NewClient ''acme'')\<lparr>Url := ''oktapreview.com''\<rparr>)
         ''<https://acme.oktapreview.com/api/v1/users/<https://acme.okta.com/api/v1/u1>; rel=next'' =
       ''<https://acme.oktapreview.com/api/v1/users/u1''"
  by (simp add: Groups_nextLink_def NewClient_def)

text \<open>
  An example: the client of the organisation \<open>acme\<close> at \<^verbatim>\<open>oktapreview.com\<close>. The link
  of its own domain keeps its absolute form, the link of \<^verbatim>\<open>okta.com\<close> becomes an endpoint.
\<close>

theorem Groups_nextLink_fixed_domain_witness:
  "Url ((NewClient ''acme'')\<lparr>Url := ''oktapreview.com''\<rparr>) \<noteq> ''okta.com''
   \<and> CHR ''/'' \<notin> set (Url ((NewClient ''acme'')\<lparr>Url := ''oktapreview.com''\<rparr>))
   \<and> \<not> prefix ''okta.com/api/v1/'' (Url ((NewClient ''acme'')\<lparr>Url := ''oktapreview.com''\<rparr>) @ ''/api/v1/'')
   \<and> Groups_nextLink ((NewClient ''acme'')\<lparr>Url := ''oktapreview.com''\<rparr>)
         ''<https://acme.oktapreview.com/api/v1/users/u1/groups?after=g2>; rel=next'' =
       ''<https://acme.oktapreview.com/api/v1/users/u1/groups?after=g2''
   \<and> Groups_nextLink ((NewClient ''acme'')\<lparr>Url := ''oktapreview.com''\<rparr>)
         ''<https://acme.okta.com/api/v1/users/u1/groups?after=g2>; rel=next'' =
       ''users/u1/groups?after=g2''
   \<and> Groups_nextLink ((NewClient ''acme'')\<lparr>Url := ''oktapreview.com''\<rparr>)
         ''<https://acme.okta.com/api/v1/users/u1/groups?after=g2>; rel=next'' =
       Groups_nextLink (NewClient ''acme'')
         ''<https://acme.okta.com/api/v1/users/u1/groups?after=g2>; rel=next''"
proof -
  define c where "c = (NewClient ''acme'')\<lparr>Url := ''oktapreview.com''\<rparr>"
  have o: "org c = ''acme''" and u: "Url c = ''oktapreview.com''"
    by (simp_all add: c_def NewClient_def)
  have h1: "Url c \<noteq> ''okta.com''" and h2: "CHR ''/'' \<notin> set (Url c)"
    and h3: "CHR ''<'' \<notin> set (org c @ Url c @ ''users/u1/groups?after=g2'')"
    and h4: "CHR '';'' \<notin> set (org c @ Url c @ ''users/u1/groups?after=g2'')"
    and h5: "''; rel=next'' = '''' \<or> hd ''; rel=next'' = CHR '';''"
    and h6: "CHR ''<'' \<notin> set ''users/u1/groups?after=g2''"
    and h7: "CHR '';'' \<notin> set (org c @ ''users/u1/groups?after=g2'')"
    by (simp_all add: o u)
  note T = Groups_nextLink_fixed_domain [where c = c and rest = "''users/u1/groups?after=g2''"
      and params = "''; rel=next''" and link = "''<https://acme.okta.com/api/v1/users/u1/groups?after=g2>; rel=next''"
      and u = "''okta.com''"]
  from T h1 h2 have np: "\<not> prefix ''okta.com/api/v1/'' (Url c @ ''/api/v1/'')"
    by blast
  from T np h3 h4 h5 have
    "Groups_nextLink c (''<https://'' @ org c @ ''.'' @ Url c @ ''/api/v1/'' @ ''users/u1/groups?after=g2''
         @ ''>'' @ ''; rel=next'') =
     filter (\<lambda>x. x \<noteq> CHR ''>'') (''<https://'' @ org c @ ''.'' @ Url c @ ''/api/v1/''
         @ ''users/u1/groups?after=g2'')"
    by blast
  then have a: "Groups_nextLink c ''<https://acme.oktapreview.com/api/v1/users/u1/groups?after=g2>; rel=next'' =
       ''<https://acme.oktapreview.com/api/v1/users/u1/groups?after=g2''"
    by (simp add: o u)
  from T h5 h6 h7 have
    "Groups_nextLink c (''<https://'' @ org c @ ''.okta.com/api/v1/'' @ ''users/u1/groups?after=g2''
         @ ''>'' @ ''; rel=next'') =
     filter (\<lambda>x. x \<noteq> CHR ''>'') ''users/u1/groups?after=g2''"
    by blast
  then have b: "Groups_nextLink c ''<https://acme.okta.com/api/v1/users/u1/groups?after=g2>; rel=next'' =
       ''users/u1/groups?after=g2''"
    by (simp add: o)
  have "c\<lparr>Url := ''okta.com''\<rparr> = NewClient ''acme''"
    by (simp add: c_def NewClient_def)
  with T have d: "Groups_nextLink c ''<https://acme.okta.com/api/v1/users/u1/groups?after=g2>; rel=next'' =
       Groups_nextLink (NewClient ''acme'')
         ''<https://acme.okta.com/api/v1/users/u1/groups?after=g2>; rel=next''"
    by simp
  from h1 h2 np a b d show ?thesis unfolding c_def by blast
qed

subsection \<open>The query of AppLinks\<close>

lemma Encode_filter:
  "Encode (Values_Add [] ''filter'' (''appName eq '' @ [CHR 0x22] @ appName @ [CHR 0x22])) =
     ''filter=appName+eq+%22'' @ QueryEscape appName @ ''%22''"
  by (simp add: Encode_def Values_Add_def QueryEscape_def escape_byte_def shouldEscape_def
      upperhex_def)

lemma AppLinks_call:
  "AppLinks L T c w userID appName =
     (case call L c w
             (''users/'' @ userID @ ''/appLinks''
                @ (if appName = '''' then ''''
                   else ''?filter=appName+eq+%22'' @ QueryEscape appName @ ''%22''))
             ''GET'' NoRequest (Unmarshal T) (zero T) of
        ((err, _), response, w') \<Rightarrow> ((response, err), w'))"
proof (cases "appName = ''''")
  case True
  then show ?thesis by (simp add: AppLinks_def)
next
  case False
  then have "0 < length appName" by simp
  then show ?thesis
    unfolding AppLinks_def Let_def Encode_filter using False by simp
qed

lemma escape_byte_chars:
  assumes "x \<in> set (escape_byte c)"
  shows "x = CHR ''+'' \<or> x = CHR ''%'' \<or> x \<in> set upperhex \<or> (x = c \<and> \<not> shouldEscape c)"
proof -
  have len: "length upperhex = 16" by (simp add: upperhex_def)
  have "(of_char c :: nat) < 16 * 16" by simp
  then have "(of_char c :: nat) div 16 < 16" by (rule less_mult_imp_div_less)
  moreover have "(of_char c :: nat) mod 16 < 16" by simp
  ultimately have "(of_char c :: nat) div 16 < 16" and "(of_char c :: nat) mod 16 < 16"
    by blast+
  then have "(of_char c :: nat) div 16 < length upperhex"
    and "(of_char c :: nat) mod 16 < length upperhex"
    by (simp_all only: len)
  then have "upperhex ! ((of_char c :: nat) div 16) \<in> set upperhex"
    and "upperhex ! ((of_char c :: nat) mod 16) \<in> set upperhex"
    by (simp_all only: nth_mem)
  with assms show ?thesis
    by (auto simp: escape_byte_def split: if_splits)
qed

lemma QueryEscape_no_delimiter:
  "CHR ''#'' \<notin> set (QueryEscape s)" and "CHR ''?'' \<notin> set (QueryEscape s)"
proof -
  have h: "CHR ''#'' \<notin> set (escape_byte c)" for c
    using escape_byte_chars [of "CHR ''#''" c]
    by (auto simp: upperhex_def shouldEscape_def)
  have q: "CHR ''?'' \<notin> set (escape_byte c)" for c
    using escape_byte_chars [of "CHR ''?''" c]
    by (auto simp: upperhex_def shouldEscape_def)
  show "CHR ''#'' \<notin> set (QueryEscape s)" using h by (auto simp: QueryEscape_def)
  show "CHR ''?'' \<notin> set (QueryEscape s)" using q by (auto simp: QueryEscape_def)
qed

lemma query_string_none:
  "CHR ''?'' \<notin> set u \<Longrightarrow> query_string u = None"
  by (auto simp: query_string_def Let_def dest: set_takeWhileD)

lemma query_string_some:
  assumes "CHR ''?'' \<notin> set pre" and "CHR ''#'' \<notin> set pre" and "CHR ''#'' \<notin> set q"
  shows "query_string (pre @ CHR ''?'' # q) = Some q"
proof -
  have "CHR ''#'' \<notin> set (pre @ CHR ''?'' # q)" using assms by simp
  then have t: "takeWhile (\<lambda>x. x \<noteq> CHR ''#'') (pre @ CHR ''?'' # q) = pre @ CHR ''?'' # q"
    by (simp only: takeWhile_eq_all_conv) blast
  have d: "dropWhile (\<lambda>x. x \<noteq> CHR ''?'') (pre @ CHR ''?'' # q) = CHR ''?'' # q"
    using assms(1) by (auto simp: dropWhile_append3)
  show ?thesis unfolding query_string_def Let_def t d by simp
qed

lemma AppLinks_url_query:
  assumes "CHR ''?'' \<notin> set (org c @ Url c @ userID)" and "CHR ''#'' \<notin> set (org c @ Url c @ userID)"
  shows "query_string (''https://'' @ org c @ ''.'' @ Url c @ ''/api/v1/users/'' @ userID @ ''/appLinks''
            @ (if appName = '''' then ''''
               else ''?filter=appName+eq+%22'' @ QueryEscape appName @ ''%22'')) =
         (if appName = '''' then None
          else Some (''filter=appName+eq+%22'' @ QueryEscape appName @ ''%22''))"
proof -
  define pre where "pre = ''https://'' @ org c @ ''.'' @ Url c @ ''/api/v1/users/'' @ userID @ ''/appLinks''"
  define q where "q = ''filter=appName+eq+%22'' @ QueryEscape appName @ ''%22''"
  have p1: "CHR ''?'' \<notin> set pre" and p2: "CHR ''#'' \<notin> set pre"
    using assms by (simp_all add: pre_def)
  have q1: "CHR ''#'' \<notin> set q"
    using QueryEscape_no_delimiter(1) [of appName] by (simp add: q_def)
  have e: "''https://'' @ org c @ ''.'' @ Url c @ ''/api/v1/users/'' @ userID @ ''/appLinks''
            @ (if appName = '''' then ''''
               else ''?filter=appName+eq+%22'' @ QueryEscape appName @ ''%22'')
           = (if appName = '''' then pre else pre @ CHR ''?'' # q)"
    by (simp add: pre_def q_def)
  show ?thesis
    unfolding e q_def [symmetric]
    using query_string_none [OF p1] query_string_some [OF p1 p2 q1] by simp
qed

text \<open>
  Claim C7, as amended. Let neither \<^verbatim>\<open>?\<close> nor \<^verbatim>\<open>#\<close> occur in the organisation, the
  domain and the user id. When \<^verbatim>\<open>http.NewRequest\<close> builds the request,
  \<^verbatim>\<open>AppLinks(userID, appName)\<close> hands one request to the HTTP client: a GET of
  \<^verbatim>\<open>users/{userID}/appLinks\<close> under the base URL, whose query string is, when \<open>appName\<close> is
  not empty, \<^verbatim>\<open>filter=appName+eq+%22\<close>, the escaped \<open>appName\<close>, \<^verbatim>\<open>%22\<close>, and which has no
  query string when \<open>appName\<close> is empty. When \<^verbatim>\<open>http.NewRequest\<close> refuses the URL,
  \<^verbatim>\<open>AppLinks\<close> returns its error and sends nothing.
\<close>

theorem AppLinks_query:
  "(CHR ''?'' \<notin> set (org c @ Url c @ userID) \<and> CHR ''#'' \<notin> set (org c @ Url c @ userID)
      \<and> NewRequestErr L ''GET''
            (''https://'' @ org c @ ''.'' @ Url c @ ''/api/v1/users/'' @ userID @ ''/appLinks''
               @ (if appName = '''' then ''''
                  else ''?filter=appName+eq+%22'' @ QueryEscape appName @ ''%22'')) = None \<longrightarrow>
      (\<exists>req. sent (snd (AppLinks L T c w userID appName)) = sent w @ [req]
           \<and> Method req = ''GET''
           \<and> URL req = ''https://'' @ org c @ ''.'' @ Url c @ ''/api/v1/users/'' @ userID @ ''/appLinks''
                @ (if appName = '''' then ''''
                   else ''?filter=appName+eq+%22'' @ QueryEscape appName @ ''%22'')
           \<and> query_string (URL req) =
                (if appName = '''' then None
                 else Some (''filter=appName+eq+%22'' @ QueryEscape appName @ ''%22''))))
   \<and> (\<forall>err. NewRequestErr L ''GET''
            (''https://'' @ org c @ ''.'' @ Url c @ ''/api/v1/users/'' @ userID @ ''/appLinks''
               @ (if appName = '''' then ''''
                  else ''?filter=appName+eq+%22'' @ QueryEscape appName @ ''%22'')) = Some err \<longrightarrow>
         AppLinks L T c w userID appName = ((zero T, Some err), w))"
proof -
  define u where "u = ''users/'' @ userID @ ''/appLinks''
       @ (if appName = '''' then '''' else ''?filter=appName+eq+%22'' @ QueryEscape appName @ ''%22'')"
  define x where "x = ''https://'' @ org c @ ''.'' @ Url c @ ''/api/v1/users/'' @ userID @ ''/appLinks''
               @ (if appName = '''' then ''''
                  else ''?filter=appName+eq+%22'' @ QueryEscape appName @ ''%22'')"
  have url: "call_url c u = x"
    by (simp add: call_url_def u_def x_def)
  have A: "AppLinks L T c w userID appName =
        (case call L c w u ''GET'' NoRequest (Unmarshal T) (zero T) of
           ((err, _), response, w') \<Rightarrow> ((response, err), w'))"
    unfolding u_def by (rule AppLinks_call)
  have one: "\<exists>req. sent (snd (AppLinks L T c w userID appName)) = sent w @ [req]
           \<and> Method req = ''GET'' \<and> URL req = x
           \<and> query_string (URL req) =
                (if appName = '''' then None
                 else Some (''filter=appName+eq+%22'' @ QueryEscape appName @ ''%22''))"
    if h: "CHR ''?'' \<notin> set (org c @ Url c @ userID)" "CHR ''#'' \<notin> set (org c @ Url c @ userID)"
      and nr: "NewRequestErr L ''GET'' x = None"
  proof -
    from nr url have "NewRequestErr L ''GET'' (call_url c u) = None" by simp
    then obtain req where req: "call_request L c u ''GET'' NoRequest = Inr req"
      using call_request_ok by blast
    have "sent (snd (snd (call L c w u ''GET'' NoRequest (Unmarshal T) (zero T)))) = sent w @ [req]"
      by (rule call_sent_Inr [OF req])
    then have s: "sent (snd (AppLinks L T c w userID appName)) = sent w @ [req]"
      by (auto simp: A split: prod.splits)
    from call_request_Inr [OF req] url have m: "Method req = ''GET''" and r: "URL req = x"
      by simp_all
    have "query_string x =
                (if appName = '''' then None
                 else Some (''filter=appName+eq+%22'' @ QueryEscape appName @ ''%22''))"
      unfolding x_def by (rule AppLinks_url_query [OF h])
    with s m r show ?thesis by auto
  qed
  have none: "AppLinks L T c w userID appName = ((zero T, Some err), w)"
    if nr: "NewRequestErr L ''GET'' x = Some err" for err
  proof -
    from nr url have "NewRequestErr L ''GET'' (call_url c u) = Some err" by simp
    from call_request_refused [OF this] have "call_request L c u ''GET'' NoRequest = Inl err" .
    from call_sent_Inl [OF this, of w "Unmarshal T" "zero T"] show ?thesis by (simp add: A)
  qed
  from one none show ?thesis unfolding x_def by blast
qed

text \<open>
  The claim as it was stated fails for a user id with a \<^verbatim>\<open>?\<close> or a \<^verbatim>\<open>#\<close>, which line 117
  puts into the URL as it is: with no app name the request for the user id \<^verbatim>\<open>u?x=1\<close> has the
  query string \<^verbatim>\<open>x=1/appLinks\<close>, and with the app name \<^verbatim>\<open>MyApp\<close> the request for the user id
  \<^verbatim>\<open>a#b\<close> has none. And for the user id \<^verbatim>\<open>%zz\<close>, whose URL the library refuses, no request
  is sent.
\<close>

theorem AppLinks_query_counterexample:
  "map URL (sent (snd (AppLinks (stub_lib stub_unauthorized) stub_target (NewClient ''acme'')
                        stub_world ''u?x=1'' ''''))) =
     [''https://acme.okta.com/api/v1/users/u?x=1/appLinks'']
   \<and> query_string ''https://acme.okta.com/api/v1/users/u?x=1/appLinks'' = Some ''x=1/appLinks''
   \<and> map URL (sent (snd (AppLinks (stub_lib stub_unauthorized) stub_target (NewClient ''acme'')
                        stub_world ''a#b'' ''MyApp''))) =
     [''https://acme.okta.com/api/v1/users/a#b/appLinks?filter=appName+eq+%22MyApp%22'']
   \<and> query_string ''https://acme.okta.com/api/v1/users/a#b/appLinks?filter=appName+eq+%22MyApp%22''
       = None
   \<and> sent (snd (AppLinks (stub_strict stub_unauthorized) stub_target (NewClient ''acme'')
                  stub_world ''%zz'' ''MyApp'')) = []"
  by (simp add: AppLinks_call call_def call_request_def call_url_def Do_def stub_lib_def
      stub_unauthorized_def NewClient_def stub_world_def stub_target_def Add_def stub_Marshal_def
      Let_def query_string_def QueryEscape_def escape_byte_def shouldEscape_def stub_strict_def)

text \<open>
  An example: the queries of \<^verbatim>\<open>AppLinks\<close> for \<^verbatim>\<open>MyApp\<close> and for no name, and a user id
  for which the library builds no request.
\<close>

theorem AppLinks_query_witness:
  "CHR ''?'' \<notin> set (org (NewClient ''acme'') @ Url (NewClient ''acme'') @ ''u1'')
   \<and> CHR ''#'' \<notin> set (org (NewClient ''acme'') @ Url (NewClient ''acme'') @ ''u1'')
   \<and> NewRequestErr (stub_strict stub_unauthorized) ''GET''
       ''https://acme.okta.com/api/v1/users/u1/appLinks?filter=appName+eq+%22MyApp%22'' = None
   \<and> map Method (sent (snd (AppLinks (stub_strict stub_unauthorized) stub_target (NewClient ''acme'')
                               stub_world ''u1'' ''MyApp''))) = [''GET'']
   \<and> map URL (sent (snd (AppLinks (stub_strict stub_unauthorized) stub_target (NewClient ''acme'')
                            stub_world ''u1'' ''MyApp''))) =
       [''https://acme.okta.com/api/v1/users/u1/appLinks?filter=appName+eq+%22MyApp%22'']
   \<and> map query_string
         (map URL (sent (snd (AppLinks (stub_strict stub_unauthorized) stub_target (NewClient ''acme'')
                            stub_world ''u1'' ''MyApp'')))) =
       [Some ''filter=appName+eq+%22MyApp%22'']
   \<and> map URL (sent (snd (AppLinks (stub_strict stub_unauthorized) stub_target (NewClient ''acme'')
                            stub_world ''u1'' ''''))) =
       [''https://acme.okta.com/api/v1/users/u1/appLinks'']
   \<and> map query_string
         (map URL (sent (snd (AppLinks (stub_strict stub_unauthorized) stub_target (NewClient ''acme'')
                            stub_world ''u1'' '''')))) = [None]
   \<and> NewRequestErr (stub_strict stub_unauthorized) ''GET''
       ''https://acme.okta.com/api/v1/users/%zz/appLinks'' = Some (LibError ''invalid URL escape'')
   \<and> AppLinks (stub_strict stub_unauthorized) stub_target (NewClient ''acme'') stub_world ''%zz'' ''''
       = (('''', Some (LibError ''invalid URL escape'')), stub_world)"
proof -
  have o: "org (NewClient ''acme'') = ''acme''" and d: "Url (NewClient ''acme'') = ''okta.com''"
    by (simp_all add: NewClient_def)
  have h1: "CHR ''?'' \<notin> set (org (NewClient ''acme'') @ Url (NewClient ''acme'') @ ''u1'')"
    and h2: "CHR ''#'' \<notin> set (org (NewClient ''acme'') @ Url (NewClient ''acme'') @ ''u1'')"
    by (simp_all add: o d)
  have q: "QueryEscape ''MyApp'' = ''MyApp''"
    by (simp add: QueryEscape_def escape_byte_def shouldEscape_def)
  have n1: "NewRequestErr (stub_strict stub_unauthorized) ''GET''
       ''https://acme.okta.com/api/v1/users/u1/appLinks?filter=appName+eq+%22MyApp%22'' = None"
    and n2: "NewRequestErr (stub_strict stub_unauthorized) ''GET''
       ''https://acme.okta.com/api/v1/users/u1/appLinks'' = None"
    and n3: "NewRequestErr (stub_strict stub_unauthorized) ''GET''
       ''https://acme.okta.com/api/v1/users/%zz/appLinks'' = Some (LibError ''invalid URL escape'')"
    by (simp_all add: stub_strict_def stub_lib_def)
  note T1 = AppLinks_query [where L = "stub_strict stub_unauthorized" and c = "NewClient ''acme''"
      and userID = "''u1''" and appName = "''MyApp''" and T = stub_target and w = stub_world,
      THEN conjunct1]
  note T2 = AppLinks_query [where L = "stub_strict stub_unauthorized" and c = "NewClient ''acme''"
      and userID = "''u1''" and appName = "''''" and T = stub_target and w = stub_world,
      THEN conjunct1]
  note T3 = AppLinks_query [where L = "stub_strict stub_unauthorized" and c = "NewClient ''acme''"
      and userID = "''%zz''" and appName = "''''" and T = stub_target and w = stub_world,
      THEN conjunct2]
  from T1 h1 h2 n1 have a:
    "map Method (sent (snd (AppLinks (stub_strict stub_unauthorized) stub_target (NewClient ''acme'')
                               stub_world ''u1'' ''MyApp''))) = [''GET'']
     \<and> map URL (sent (snd (AppLinks (stub_strict stub_unauthorized) stub_target (NewClient ''acme'')
                            stub_world ''u1'' ''MyApp''))) =
       [''https://acme.okta.com/api/v1/users/u1/appLinks?filter=appName+eq+%22MyApp%22'']
     \<and> map query_string
         (map URL (sent (snd (AppLinks (stub_strict stub_unauthorized) stub_target (NewClient ''acme'')
                            stub_world ''u1'' ''MyApp'')))) =
       [Some ''filter=appName+eq+%22MyApp%22'']"
    by (auto simp: o d q stub_world_def)
  from T2 h1 h2 n2 have b:
    "map URL (sent (snd (AppLinks (stub_strict stub_unauthorized) stub_target (NewClient ''acme'')
                            stub_world ''u1'' ''''))) =
       [''https://acme.okta.com/api/v1/users/u1/appLinks'']
     \<and> map query_string
         (map URL (sent (snd (AppLinks (stub_strict stub_unauthorized) stub_target (NewClient ''acme'')
                            stub_world ''u1'' '''')))) = [None]"
    by (auto simp: o d stub_world_def)
  from T3 n3 have e:
    "AppLinks (stub_strict stub_unauthorized) stub_target (NewClient ''acme'') stub_world ''%zz'' ''''
       = (('''', Some (LibError ''invalid URL escape'')), stub_world)"
    by (simp add: o d stub_target_def)
  from h1 h2 n1 n3 a b e show ?thesis by blast
qed

subsection \<open>Errors of the provider\<close>

lemma call_401_built:
  assumes nr: "NewRequestErr L m (call_url c endpoint) = None"
    and rt: "\<forall>p r. \<exists>resp p'. RoundTrip L p r = (Inr resp, p') \<and> StatusCode resp = 401
               \<and> RespBody resp = Inr B"
    and dec: "ErrorCode (fst (UnmarshalError L B \<lparr>ErrorCode = ''''\<rparr>)) = ''E0000004''"
  shows "\<exists>e w'. call L c w endpoint m q U r0 = ((Some (ApiError e), ''''), r0, w')
           \<and> HTTPCode e = 401 \<and> ErrorCode (Response e) = ''E0000004''"
proof -
  from nr obtain req where r: "call_request L c endpoint m q = Inr req"
    using call_request_ok by blast
  from rt obtain resp p' where t: "RoundTrip L (provider w) req = (Inr resp, p')"
    and st: "StatusCode resp = 401" and b: "RespBody resp = Inr B"
    by blast
  from st have "StatusCode resp \<noteq> 200" by simp
  from call_status_error [OF r t b this, of U r0] st dec show ?thesis by simp
qed

lemma ops_401_built:
  assumes rt: "\<forall>p r. \<exists>resp p'. RoundTrip L p r = (Inr resp, p') \<and> StatusCode resp = 401
               \<and> RespBody resp = Inr B"
    and dec: "ErrorCode (fst (UnmarshalError L B \<lparr>ErrorCode = ''''\<rparr>)) = ''E0000004''"
  shows "NewRequestErr L ''POST'' (call_url c ''authn'') = None \<Longrightarrow>
           is_401 (snd (fst (Authenticate L T1 c w username password)))"
    and "NewRequestErr L ''POST'' (call_url c ''sessions'') = None \<Longrightarrow>
           is_401 (snd (fst (Session L US c w sessionToken)))"
    and "NewRequestErr L ''GET'' (call_url c (''users/'' @ userID)) = None \<Longrightarrow>
           is_401 (snd (fst (User L T2 c w userID)))"
    and "NewRequestErr L ''GET'' (call_url c (''users/'' @ userID @ ''/groups?limit=200'')) = None \<Longrightarrow>
           \<exists>res w'. Groups L UG c w userID = Some (res, w') \<and> is_401 (snd res)"
    and "NewRequestErr L ''GET''
           (call_url c (''users/'' @ userID @ ''/appLinks''
              @ (if appName = '''' then ''''
                 else ''?filter=appName+eq+%22'' @ QueryEscape appName @ ''%22''))) = None \<Longrightarrow>
           is_401 (snd (fst (AppLinks L T3 c w userID appName)))"
proof -
  show "is_401 (snd (fst (Authenticate L T1 c w username password)))"
    if nr: "NewRequestErr L ''POST'' (call_url c ''authn'') = None"
    using call_401_built [OF nr rt dec, of w
        "AuthnPayload \<lparr>Username = username, Password = password\<rparr>" "Unmarshal T1" "zero T1"]
    by (auto simp: Authenticate_def is_401_def)
  show "is_401 (snd (fst (Session L US c w sessionToken)))"
    if nr: "NewRequestErr L ''POST'' (call_url c ''sessions'') = None"
    using call_401_built [OF nr rt dec, of w
        "SessionPayload \<lparr>SessionToken = sessionToken\<rparr>" US "\<lparr>ID = ''''\<rparr>"]
    by (auto simp: Session_def is_401_def)
  show "is_401 (snd (fst (User L T2 c w userID)))"
    if nr: "NewRequestErr L ''GET'' (call_url c (''users/'' @ userID)) = None"
    using call_401_built [OF nr rt dec, of w NoRequest "Unmarshal T2" "zero T2"]
    by (auto simp: User_def is_401_def)
  show "is_401 (snd (fst (AppLinks L T3 c w userID appName)))"
    if nr: "NewRequestErr L ''GET''
           (call_url c (''users/'' @ userID @ ''/appLinks''
              @ (if appName = '''' then ''''
                 else ''?filter=appName+eq+%22'' @ QueryEscape appName @ ''%22''))) = None"
    using call_401_built [OF nr rt dec, of w NoRequest "Unmarshal T3" "zero T3"]
    by (auto simp: AppLinks_call is_401_def)
  show "\<exists>res w'. Groups L UG c w userID = Some (res, w') \<and> is_401 (snd res)"
    if nr: "NewRequestErr L ''GET'' (call_url c (''users/'' @ userID @ ''/groups?limit=200'')) = None"
  proof -
    from call_401_built [OF nr rt dec, of w NoRequest UG "[]"]
    obtain e w' where
      "call L c w (''users/'' @ userID @ ''/groups?limit=200'') ''GET'' NoRequest UG [] =
         ((Some (ApiError e), ''''), [], w')"
      and e: "HTTPCode e = 401" "ErrorCode (Response e) = ''E0000004''"
      by blast
    then have "Groups_body L UG c (w, [], ''users/'' @ userID @ ''/groups?limit=200'') =
        Inl (([], Some (ApiError e)), w')"
      by (simp add: Groups_body_def)
    from Groups_loop_Inl [OF this] e show ?thesis
      by (auto simp: Groups_def is_401_def)
  qed
qed

text \<open>
  Claim C3, as amended. When the response has a status other than 200 and its body is
  read, \<^verbatim>\<open>call\<close> returns an \<^verbatim>\<open>errorResponse\<close> with the status code of the response, the
  payload that \<^verbatim>\<open>json.Unmarshal\<close> leaves in a fresh \<^verbatim>\<open>ErrorResponse\<close>, whatever error the
  decoding returns, and the URL of the request; the link is empty and the destination
  untouched. A body that does not parse, so that the decoder leaves the payload as it
  was, gives the zero payload. When the body of the response is not read, \<^verbatim>\<open>call\<close>
  returns the error of the reading instead, whatever the status. When the provider
  answers every request with status 401 and the body \<^verbatim>\<open>{"errorCode":"E0000004"}\<close>, which
  decodes to that code, each of the five operations whose request \<^verbatim>\<open>http.NewRequest\<close>
  builds returns an error with status 401 and code \<^verbatim>\<open>E0000004\<close>.
\<close>

theorem call_error_response:
  "(call_request L c endpoint meth request = Inr req
      \<and> RoundTrip L (provider w) req = (Inr resp, p')
      \<and> RespBody resp = Inr body \<and> StatusCode resp \<noteq> 200 \<longrightarrow>
        call L c w endpoint meth request U response =
          ((Some (ApiError \<lparr>HTTPCode = StatusCode resp,
                            Response = fst (UnmarshalError L body \<lparr>ErrorCode = ''''\<rparr>),
                            Endpoint = ''https://'' @ org c @ ''.'' @ Url c @ ''/api/v1/'' @ endpoint\<rparr>),
            ''''),
           response, w\<lparr>provider := p', sent := sent w @ [req]\<rparr>)
        \<and> URL req = ''https://'' @ org c @ ''.'' @ Url c @ ''/api/v1/'' @ endpoint
        \<and> (\<forall>perr. UnmarshalError L body \<lparr>ErrorCode = ''''\<rparr> = (\<lparr>ErrorCode = ''''\<rparr>, Some perr) \<longrightarrow>
              fst (fst (call L c w endpoint meth request U response)) =
                Some (ApiError \<lparr>HTTPCode = StatusCode resp,
                                Response = \<lparr>ErrorCode = ''''\<rparr>,
                                Endpoint = ''https://'' @ org c @ ''.'' @ Url c @ ''/api/v1/'' @ endpoint\<rparr>)))
   \<and> (call_request L c endpoint meth request = Inr req
      \<and> RoundTrip L (provider w) req = (Inr resp, p')
      \<and> RespBody resp = Inl rerr \<longrightarrow>
        call L c w endpoint meth request U response =
          ((Some rerr, ''''), response, w\<lparr>provider := p', sent := sent w @ [req]\<rparr>))
   \<and> ((\<forall>p r. \<exists>resp p'. RoundTrip L p r = (Inr resp, p') \<and> StatusCode resp = 401
             \<and> RespBody resp = Inr ''{\"errorCode\":\"E0000004\"}'')
      \<and> ErrorCode (fst (UnmarshalError L ''{\"errorCode\":\"E0000004\"}'' \<lparr>ErrorCode = ''''\<rparr>))
           = ''E0000004'' \<longrightarrow>
        (NewRequestErr L ''POST'' (call_url c ''authn'') = None \<longrightarrow>
           is_401 (snd (fst (Authenticate L T1 c w username password))))
        \<and> (NewRequestErr L ''POST'' (call_url c ''sessions'') = None \<longrightarrow>
           is_401 (snd (fst (Session L US c w sessionToken))))
        \<and> (NewRequestErr L ''GET'' (call_url c (''users/'' @ userID)) = None \<longrightarrow>
           is_401 (snd (fst (User L T2 c w userID))))
        \<and> (NewRequestErr L ''GET'' (call_url c (''users/'' @ userID @ ''/groups?limit=200'')) = None \<longrightarrow>
           (\<exists>res w'. Groups L UG c w userID = Some (res, w') \<and> is_401 (snd res)))
        \<and> (NewRequestErr L ''GET''
              (call_url c (''users/'' @ userID @ ''/appLinks''
                 @ (if appName = '''' then ''''
                    else ''?filter=appName+eq+%22'' @ QueryEscape appName @ ''%22''))) = None \<longrightarrow>
           is_401 (snd (fst (AppLinks L T3 c w userID appName)))))"
proof (intro conjI impI; (elim conjE)?)
  assume r: "call_request L c endpoint meth request = Inr req"
    and t: "RoundTrip L (provider w) req = (Inr resp, p')"
    and b: "RespBody resp = Inr body" and st: "StatusCode resp \<noteq> 200"
  note e = call_status_error [OF r t b st, of U response]
  show "call L c w endpoint meth request U response =
          ((Some (ApiError \<lparr>HTTPCode = StatusCode resp,
                            Response = fst (UnmarshalError L body \<lparr>ErrorCode = ''''\<rparr>),
                            Endpoint = ''https://'' @ org c @ ''.'' @ Url c @ ''/api/v1/'' @ endpoint\<rparr>),
            ''''),
           response, w\<lparr>provider := p', sent := sent w @ [req]\<rparr>)"
    using e by (simp add: call_url_def)
  show "URL req = ''https://'' @ org c @ ''.'' @ Url c @ ''/api/v1/'' @ endpoint"
    using call_request_Inr [OF r] by (simp add: call_url_def)
  show "\<forall>perr. UnmarshalError L body \<lparr>ErrorCode = ''''\<rparr> = (\<lparr>ErrorCode = ''''\<rparr>, Some perr) \<longrightarrow>
              fst (fst (call L c w endpoint meth request U response)) =
                Some (ApiError \<lparr>HTTPCode = StatusCode resp,
                                Response = \<lparr>ErrorCode = ''''\<rparr>,
                                Endpoint = ''https://'' @ org c @ ''.'' @ Url c @ ''/api/v1/'' @ endpoint\<rparr>)"
    using e by (simp add: call_url_def)
next
  assume r: "call_request L c endpoint meth request = Inr req"
    and t: "RoundTrip L (provider w) req = (Inr resp, p')"
    and b: "RespBody resp = Inl rerr"
  show "call L c w endpoint meth request U response =
          ((Some rerr, ''''), response, w\<lparr>provider := p', sent := sent w @ [req]\<rparr>)"
    by (rule call_read_error [OF r t b])
next
  assume rt: "\<forall>p r. \<exists>resp p'. RoundTrip L p r = (Inr resp, p') \<and> StatusCode resp = 401
             \<and> RespBody resp = Inr ''{\"errorCode\":\"E0000004\"}''"
    and dec: "ErrorCode (fst (UnmarshalError L ''{\"errorCode\":\"E0000004\"}'' \<lparr>ErrorCode = ''''\<rparr>))
           = ''E0000004''"
  note o = ops_401_built [OF rt dec]
  show "is_401 (snd (fst (Authenticate L T1 c w username password)))"
    if "NewRequestErr L ''POST'' (call_url c ''authn'') = None"
    using that by (rule o)
  show "is_401 (snd (fst (Session L US c w sessionToken)))"
    if "NewRequestErr L ''POST'' (call_url c ''sessions'') = None"
    using that by (rule o)
  show "is_401 (snd (fst (User L T2 c w userID)))"
    if "NewRequestErr L ''GET'' (call_url c (''users/'' @ userID)) = None"
    using that by (rule o)
  show "\<exists>res w'. Groups L UG c w userID = Some (res, w') \<and> is_401 (snd res)"
    if "NewRequestErr L ''GET'' (call_url c (''users/'' @ userID @ ''/groups?limit=200'')) = None"
    using that by (rule o)
  show "is_401 (snd (fst (AppLinks L T3 c w userID appName)))"
    if "NewRequestErr L ''GET''
              (call_url c (''users/'' @ userID @ ''/appLinks''
                 @ (if appName = '''' then ''''
                    else ''?filter=appName+eq+%22'' @ QueryEscape appName @ ''%22''))) = None"
    using that by (rule o)
qed

text \<open>
  The claim as it was stated fails: for a response with status 500 whose body cannot be
  read, \<^verbatim>\<open>call\<close> returns the error of the reading, which carries no status code, payload
  or URL. And against the provider that answers every request with status 401 and the
  code \<^verbatim>\<open>E0000004\<close>, the operation \<^verbatim>\<open>User\<close> for the user id \<^verbatim>\<open>%zz\<close>, whose URL the library
  refuses, returns the error of \<^verbatim>\<open>http.NewRequest\<close>, which carries neither.
\<close>

theorem call_error_response_counterexample:
  "StatusCode unreadable_response = 500
   \<and> RespBody unreadable_response = Inl (LibError ''unexpected EOF'')
   \<and> fst (call (stub_lib stub_unreadable) (NewClient ''acme'') stub_world ''users/u1'' ''GET''
            NoRequest stub_UnmarshalGroups []) =
       (Some (LibError ''unexpected EOF''), '''')
   \<and> NewRequestErr (stub_strict stub_unauthorized) ''GET'' ''https://acme.okta.com/api/v1/users/%zz''
       = Some (LibError ''invalid URL escape'')
   \<and> snd (fst (User (stub_strict stub_unauthorized) stub_target (NewClient ''acme'') stub_world
                 ''%zz'')) = Some (LibError ''invalid URL escape'')
   \<and> is_401 (Some (LibError ''invalid URL escape'')) = False"
  by (simp add: call_def call_request_def call_url_def Do_def stub_lib_def stub_unreadable_def
      unreadable_response_def NewClient_def stub_world_def Add_def stub_Marshal_def Let_def
      User_def stub_strict_def stub_target_def is_401_def)

text \<open>
  An example: a status 500 whose body is no JSON, a status 500 whose body is not read,
  and the five operations against the provider that answers 401, with the library
  \<open>stub_strict\<close>, which builds their requests.
\<close>

theorem call_error_response_witness:
  "\<exists>req resp p' req2 p2.
     call_request (stub_lib stub_broken) (NewClient ''acme'') ''users/u1'' ''GET'' NoRequest = Inr req
     \<and> RoundTrip (stub_lib stub_broken) (provider stub_world) req = (Inr resp, p')
     \<and> RespBody resp = Inr ''Internal Server Error'' \<and> StatusCode resp = 500
     \<and> UnmarshalError (stub_lib stub_broken) ''Internal Server Error'' \<lparr>ErrorCode = ''''\<rparr> =
          (\<lparr>ErrorCode = ''''\<rparr>, Some (LibError ''invalid character''))
     \<and> fst (fst (call (stub_lib stub_broken) (NewClient ''acme'') stub_world ''users/u1'' ''GET''
                    NoRequest stub_UnmarshalGroups [])) =
          Some (ApiError \<lparr>HTTPCode = 500, Response = \<lparr>ErrorCode = ''''\<rparr>,
                           Endpoint = ''https://acme.okta.com/api/v1/users/u1''\<rparr>)
     \<and> call_request (stub_lib stub_unreadable) (NewClient ''acme'') ''users/u1'' ''GET'' NoRequest
          = Inr req2
     \<and> RoundTrip (stub_lib stub_unreadable) (provider stub_world) req2 = (Inr unreadable_response, p2)
     \<and> RespBody unreadable_response = Inl (LibError ''unexpected EOF'')
     \<and> fst (call (stub_lib stub_unreadable) (NewClient ''acme'') stub_world ''users/u1'' ''GET''
               NoRequest stub_UnmarshalGroups []) = (Some (LibError ''unexpected EOF''), '''')
     \<and> NewRequestErr (stub_strict stub_unauthorized) ''POST'' ''https://acme.okta.com/api/v1/authn'' = None
     \<and> is_401 (snd (fst (Authenticate (stub_strict stub_unauthorized) stub_target (NewClient ''acme'')
                           stub_world ''alice'' ''secret'')))
     \<and> is_401 (snd (fst (Session (stub_strict stub_unauthorized) stub_UnmarshalSession
                           (NewClient ''acme'') stub_world ''tok123'')))
     \<and> is_401 (snd (fst (User (stub_strict stub_unauthorized) stub_target (NewClient ''acme'')
                           stub_world ''u1'')))
     \<and> (\<exists>res w'. Groups (stub_strict stub_unauthorized) stub_UnmarshalGroups (NewClient ''acme'')
                     stub_world ''u1'' = Some (res, w') \<and> is_401 (snd res))
     \<and> is_401 (snd (fst (AppLinks (stub_strict stub_unauthorized) stub_target (NewClient ''acme'')
                           stub_world ''u1'' ''MyApp'')))"
proof -
  obtain req where r: "call_request (stub_lib stub_broken) (NewClient ''acme'') ''users/u1'' ''GET''
      NoRequest = Inr req"
    by (auto simp: call_request_def stub_lib_def Let_def)
  from call_request_Inr [OF r]
  have u: "URL req = ''https://acme.okta.com/api/v1/users/u1''"
    by (simp add: call_url_def NewClient_def)
  obtain resp where t: "RoundTrip (stub_lib stub_broken) (provider stub_world) req = (Inr resp, Suc 0)"
    and b: "RespBody resp = Inr ''Internal Server Error''" and st: "StatusCode resp = 500"
    by (simp add: stub_lib_def stub_broken_def u stub_world_def)
  have d: "UnmarshalError (stub_lib stub_broken) ''Internal Server Error'' \<lparr>ErrorCode = ''''\<rparr> =
          (\<lparr>ErrorCode = ''''\<rparr>, Some (LibError ''invalid character''))"
    by (simp add: stub_lib_def stub_UnmarshalError_def)
  obtain req2 where r2: "call_request (stub_lib stub_unreadable) (NewClient ''acme'') ''users/u1''
      ''GET'' NoRequest = Inr req2"
    by (auto simp: call_request_def stub_lib_def Let_def)
  have t2: "RoundTrip (stub_lib stub_unreadable) (provider stub_world) req2 =
      (Inr unreadable_response, Suc 0)"
    by (simp add: stub_lib_def stub_unreadable_def stub_world_def)
  have b2: "RespBody unreadable_response = Inl (LibError ''unexpected EOF'')"
    by (simp add: unreadable_response_def)
  have n1: "NewRequestErr (stub_strict stub_unauthorized) ''POST'' (call_url (NewClient ''acme'') ''authn'') = None"
    and n2: "NewRequestErr (stub_strict stub_unauthorized) ''POST'' (call_url (NewClient ''acme'') ''sessions'') = None"
    and n3: "NewRequestErr (stub_strict stub_unauthorized) ''GET''
               (call_url (NewClient ''acme'') (''users/'' @ ''u1'')) = None"
    and n4: "NewRequestErr (stub_strict stub_unauthorized) ''GET''
               (call_url (NewClient ''acme'') (''users/'' @ ''u1'' @ ''/groups?limit=200'')) = None"
    and n5: "NewRequestErr (stub_strict stub_unauthorized) ''GET''
               (call_url (NewClient ''acme'') (''users/'' @ ''u1'' @ ''/appLinks''
                  @ (if ''MyApp'' = '''' then ''''
                     else ''?filter=appName+eq+%22'' @ QueryEscape ''MyApp'' @ ''%22''))) = None"
    and n0: "NewRequestErr (stub_strict stub_unauthorized) ''POST'' ''https://acme.okta.com/api/v1/authn'' = None"
    by (simp_all add: stub_strict_def stub_lib_def call_url_def NewClient_def QueryEscape_def
        escape_byte_def shouldEscape_def)
  have rt: "\<forall>p r. \<exists>resp p'. RoundTrip (stub_strict stub_unauthorized) p r = (Inr resp, p')
              \<and> StatusCode resp = 401 \<and> RespBody resp = Inr ''{\"errorCode\":\"E0000004\"}''"
    by (simp add: stub_strict_def stub_lib_def stub_unauthorized_def)
  have dc: "ErrorCode (fst (UnmarshalError (stub_strict stub_unauthorized)
               ''{\"errorCode\":\"E0000004\"}'' \<lparr>ErrorCode = ''''\<rparr>)) = ''E0000004''"
    by (simp add: stub_strict_def stub_lib_def stub_UnmarshalError_def)
  note A = call_error_response [where L = "stub_lib stub_broken" and c = "NewClient ''acme''"
      and endpoint = "''users/u1''" and meth = "''GET''" and request = NoRequest and req = req
      and w = stub_world and resp = resp and p' = "Suc 0" and body = "''Internal Server Error''"
      and U = stub_UnmarshalGroups and response = "[]", THEN conjunct1]
  note R = call_error_response [where L = "stub_lib stub_unreadable" and c = "NewClient ''acme''"
      and endpoint = "''users/u1''" and meth = "''GET''" and request = NoRequest and req = req2
      and w = stub_world and resp = unreadable_response and p' = "Suc 0"
      and rerr = "LibError ''unexpected EOF''"
      and U = stub_UnmarshalGroups and response = "[]", THEN conjunct2, THEN conjunct1]
  note B = call_error_response [where L = "stub_strict stub_unauthorized" and c = "NewClient ''acme''"
      and w = stub_world and ?T1.0 = stub_target and ?T2.0 = stub_target and ?T3.0 = stub_target
      and US = stub_UnmarshalSession and UG = stub_UnmarshalGroups
      and username = "''alice''" and password = "''secret''" and sessionToken = "''tok123''"
      and userID = "''u1''" and appName = "''MyApp''", THEN conjunct2, THEN conjunct2]
  from A r t b st d have a:
    "fst (fst (call (stub_lib stub_broken) (NewClient ''acme'') stub_world ''users/u1'' ''GET''
                    NoRequest stub_UnmarshalGroups [])) =
          Some (ApiError \<lparr>HTTPCode = 500, Response = \<lparr>ErrorCode = ''''\<rparr>,
                           Endpoint = ''https://acme.okta.com/api/v1/users/u1''\<rparr>)"
    by (simp add: NewClient_def)
  from R r2 t2 b2 have e:
    "fst (call (stub_lib stub_unreadable) (NewClient ''acme'') stub_world ''users/u1'' ''GET''
               NoRequest stub_UnmarshalGroups []) = (Some (LibError ''unexpected EOF''), '''')"
    by simp
  from B rt dc have o:
    "is_401 (snd (fst (Authenticate (stub_strict stub_unauthorized) stub_target (NewClient ''acme'')
                           stub_world ''alice'' ''secret'')))
     \<and> is_401 (snd (fst (Session (stub_strict stub_unauthorized) stub_UnmarshalSession
                           (NewClient ''acme'') stub_world ''tok123'')))
     \<and> is_401 (snd (fst (User (stub_strict stub_unauthorized) stub_target (NewClient ''acme'')
                           stub_world ''u1'')))
     \<and> (\<exists>res w'. Groups (stub_strict stub_unauthorized) stub_UnmarshalGroups (NewClient ''acme'')
                     stub_world ''u1'' = Some (res, w') \<and> is_401 (snd res))
     \<and> is_401 (snd (fst (AppLinks (stub_strict stub_unauthorized) stub_target (NewClient ''acme'')
                           stub_world ''u1'' ''MyApp'')))"
    by (simp only: n1 n2 n3 n4 n5 simp_thms)
  from a e o r t b st d r2 t2 b2 n0
  show ?thesis by blast
qed

subsection \<open>Request headers and the session cookie\<close>

lemma cookie_of_call:
  assumes "SessionCookie c = Some ck"
  shows "\<forall>r\<in>set (requests_since w (snd (snd (call L c w endpoint meth request U response)))).
           Values (Header r) ''Cookie'' = Some [CookieString L ck]"
proof (cases "call_request L c endpoint meth request")
  case (Inl err)
  then show ?thesis by (simp add: call_requests_since)
next
  case (Inr req)
  from call_request_Cookie [OF this] assms Inr show ?thesis
    by (simp add: call_requests_since)
qed

lemma cookie_of_ops:
  assumes ck: "SessionCookie c = Some ck"
  shows "\<forall>r\<in>set (requests_since w (snd (Authenticate L T1 c w username password))).
           Values (Header r) ''Cookie'' = Some [CookieString L ck]"
    and "\<forall>r\<in>set (requests_since w (snd (snd (Session L US c w sessionToken)))).
           Values (Header r) ''Cookie'' = Some [CookieString L ck]"
    and "\<forall>r\<in>set (requests_since w (snd (User L T2 c w userID))).
           Values (Header r) ''Cookie'' = Some [CookieString L ck]"
    and "\<forall>r\<in>set (requests_since w (snd (AppLinks L T3 c w userID appName))).
           Values (Header r) ''Cookie'' = Some [CookieString L ck]"
    and "\<forall>res w'. Groups L UG c w userID = Some (res, w') \<longrightarrow>
           (\<forall>r\<in>set (requests_since w w'). Values (Header r) ''Cookie'' = Some [CookieString L ck])"
proof -
  note cc = cookie_of_call [OF ck]
  have A: "snd (Authenticate L T1 c w username password) =
        snd (snd (call L c w ''authn'' ''POST''
          (AuthnPayload \<lparr>Username = username, Password = password\<rparr>) (Unmarshal T1) (zero T1)))"
    by (simp add: Authenticate_def split: prod.splits)
  show "\<forall>r\<in>set (requests_since w (snd (Authenticate L T1 c w username password))).
           Values (Header r) ''Cookie'' = Some [CookieString L ck]"
    unfolding A by (rule cc)
  have S: "snd (snd (Session L US c w sessionToken)) =
        snd (snd (call L c w ''sessions'' ''POST''
          (SessionPayload \<lparr>SessionToken = sessionToken\<rparr>) US \<lparr>ID = ''''\<rparr>))"
    by (simp add: Session_def Let_def split: prod.splits)
  show "\<forall>r\<in>set (requests_since w (snd (snd (Session L US c w sessionToken)))).
           Values (Header r) ''Cookie'' = Some [CookieString L ck]"
    unfolding S by (rule cc)
  have U: "snd (User L T2 c w userID) =
        snd (snd (call L c w (''users/'' @ userID) ''GET'' NoRequest (Unmarshal T2) (zero T2)))"
    by (simp add: User_def split: prod.splits)
  show "\<forall>r\<in>set (requests_since w (snd (User L T2 c w userID))).
           Values (Header r) ''Cookie'' = Some [CookieString L ck]"
    unfolding U by (rule cc)
  have P: "snd (AppLinks L T3 c w userID appName) =
        snd (snd (call L c w (''users/'' @ userID @ ''/appLinks''
                @ (if appName = '''' then ''''
                   else ''?filter=appName+eq+%22'' @ QueryEscape appName @ ''%22''))
             ''GET'' NoRequest (Unmarshal T3) (zero T3)))"
    by (simp add: AppLinks_call split: prod.splits)
  show "\<forall>r\<in>set (requests_since w (snd (AppLinks L T3 c w userID appName))).
           Values (Header r) ''Cookie'' = Some [CookieString L ck]"
    unfolding P by (rule cc)
  show "\<forall>res w'. Groups L UG c w userID = Some (res, w') \<longrightarrow>
           (\<forall>r\<in>set (requests_since w w'). Values (Header r) ''Cookie'' = Some [CookieString L ck])"
  proof (intro allI impI ballI)
    fix res w' r
    assume g: "Groups L UG c w userID = Some (res, w')" and r: "r \<in> set (requests_since w w')"
    from g have "Groups_loop L UG c (w, [], ''users/'' @ userID @ ''/groups?limit=200'') = Some (res, w')"
      by (simp add: Groups_def)
    from Groups_loop_sent [OF this] obtain reqs where
      q: "sent w' = sent w @ reqs" "\<forall>r\<in>set reqs. \<exists>e. call_request L c e ''GET'' NoRequest = Inr r"
      by auto
    from q(1) r have "r \<in> set reqs" by (simp add: requests_since_def)
    with q(2) obtain e where "call_request L c e ''GET'' NoRequest = Inr r" by blast
    from call_request_Cookie [OF this] ck
    show "Values (Header r) ''Cookie'' = Some [CookieString L ck]" by simp
  qed
qed

text \<open>
  Claim C6. A request that \<^verbatim>\<open>call\<close> builds has the headers \<^verbatim>\<open>Accept\<close> and
  \<^verbatim>\<open>Content-Type\<close>, both \<^verbatim>\<open>application/json\<close>, an \<^verbatim>\<open>Authorization\<close> header
  \<^verbatim>\<open>SSWS\<close> and the token exactly when the token is not empty, and a \<^verbatim>\<open>Cookie\<close> header,
  the serialised session cookie, exactly when the client has one. This request, and
  no other, is what \<^verbatim>\<open>call\<close> hands to the HTTP client. So for a client whose session
  cookie is set, every request that any of the five operations sends carries it.
\<close>

theorem call_request_headers:
  "(call_request L c endpoint meth request = Inr req \<longrightarrow>
       Values (Header req) ''Accept'' = Some [''application/json'']
     \<and> Values (Header req) ''Content-Type'' = Some [''application/json'']
     \<and> Values (Header req) ''Authorization'' =
         (if ApiToken c = '''' then None else Some [''SSWS '' @ ApiToken c])
     \<and> Values (Header req) ''Cookie'' =
         (case SessionCookie c of None \<Rightarrow> None | Some ck \<Rightarrow> Some [CookieString L ck]))
   \<and> requests_since w (snd (snd (call L c w endpoint meth request U response))) =
       (case call_request L c endpoint meth request of Inl err \<Rightarrow> [] | Inr req \<Rightarrow> [req])
   \<and> (SessionCookie c = Some ck \<longrightarrow>
        (\<forall>r\<in>set (requests_since w (snd (Authenticate L T1 c w username password))).
           Values (Header r) ''Cookie'' = Some [CookieString L ck])
      \<and> (\<forall>r\<in>set (requests_since w (snd (snd (Session L US c w sessionToken)))).
           Values (Header r) ''Cookie'' = Some [CookieString L ck])
      \<and> (\<forall>r\<in>set (requests_since w (snd (User L T2 c w userID))).
           Values (Header r) ''Cookie'' = Some [CookieString L ck])
      \<and> (\<forall>r\<in>set (requests_since w (snd (AppLinks L T3 c w userID appName))).
           Values (Header r) ''Cookie'' = Some [CookieString L ck])
      \<and> (\<forall>res w'. Groups L UG c w userID = Some (res, w') \<longrightarrow>
           (\<forall>r\<in>set (requests_since w w'). Values (Header r) ''Cookie'' = Some [CookieString L ck])))"
proof (intro conjI impI)
  assume r: "call_request L c endpoint meth request = Inr req"
  show "Values (Header req) ''Accept'' = Some [''application/json'']"
    by (rule call_request_Accept [OF r])
  show "Values (Header req) ''Content-Type'' = Some [''application/json'']"
    by (rule call_request_Content_Type [OF r])
  show "Values (Header req) ''Authorization'' =
         (if ApiToken c = '''' then None else Some [''SSWS '' @ ApiToken c])"
    by (rule call_request_Authorization [OF r])
  show "Values (Header req) ''Cookie'' =
         (case SessionCookie c of None \<Rightarrow> None | Some ck \<Rightarrow> Some [CookieString L ck])"
    by (rule call_request_Cookie [OF r])
next
  show "requests_since w (snd (snd (call L c w endpoint meth request U response))) =
       (case call_request L c endpoint meth request of Inl err \<Rightarrow> [] | Inr req \<Rightarrow> [req])"
    by (rule call_requests_since)
next
  assume ck: "SessionCookie c = Some ck"
  note o = cookie_of_ops [OF ck]
  show "\<forall>r\<in>set (requests_since w (snd (Authenticate L T1 c w username password))).
           Values (Header r) ''Cookie'' = Some [CookieString L ck]" by (rule o)
  show "\<forall>r\<in>set (requests_since w (snd (snd (Session L US c w sessionToken)))).
           Values (Header r) ''Cookie'' = Some [CookieString L ck]" by (rule o)
  show "\<forall>r\<in>set (requests_since w (snd (User L T2 c w userID))).
           Values (Header r) ''Cookie'' = Some [CookieString L ck]" by (rule o)
  show "\<forall>r\<in>set (requests_since w (snd (AppLinks L T3 c w userID appName))).
           Values (Header r) ''Cookie'' = Some [CookieString L ck]" by (rule o)
  show "\<forall>res w'. Groups L UG c w userID = Some (res, w') \<longrightarrow>
           (\<forall>r\<in>set (requests_since w w'). Values (Header r) ''Cookie'' = Some [CookieString L ck])"
    by (rule o)
qed

text \<open>
  An example: the headers of a request of \<open>stub_client\<close>, and the three requests of its
  \<^verbatim>\<open>Groups\<close>.
\<close>

theorem call_request_headers_witness:
  "\<exists>req res w'.
     call_request (stub_lib stub_pages) stub_client ''users/u1'' ''GET'' NoRequest = Inr req
     \<and> Values (Header req) ''Accept'' = Some [''application/json'']
     \<and> Values (Header req) ''Content-Type'' = Some [''application/json'']
     \<and> Values (Header req) ''Authorization'' = Some [''SSWS tok'']
     \<and> Values (Header req) ''Cookie'' = Some [''sid=s0; Path=/; Domain=acme.okta.com; HttpOnly; Secure'']
     \<and> SessionCookie stub_client = Some \<lparr>Name = ''sid'', Value = ''s0'', Path = ''/'',
                             Domain_c = ''acme.okta.com'', Secure = True, HttpOnly = True\<rparr>
     \<and> Groups (stub_lib stub_pages) stub_UnmarshalGroups stub_client stub_world ''u1'' = Some (res, w')
     \<and> length (requests_since stub_world w') = 3
     \<and> (\<forall>r\<in>set (requests_since stub_world w').
           Values (Header r) ''Cookie'' = Some [''sid=s0; Path=/; Domain=acme.okta.com; HttpOnly; Secure''])"
proof -
  obtain req where r: "call_request (stub_lib stub_pages) stub_client ''users/u1'' ''GET'' NoRequest = Inr req"
    by (auto simp: call_request_def stub_lib_def Let_def)
  have ck: "SessionCookie stub_client = Some \<lparr>Name = ''sid'', Value = ''s0'', Path = ''/'',
                             Domain_c = ''acme.okta.com'', Secure = True, HttpOnly = True\<rparr>"
    by (simp add: stub_client_def)
  have cs: "CookieString (stub_lib stub_pages) \<lparr>Name = ''sid'', Value = ''s0'', Path = ''/'',
                             Domain_c = ''acme.okta.com'', Secure = True, HttpOnly = True\<rparr>
              = ''sid=s0; Path=/; Domain=acme.okta.com; HttpOnly; Secure''"
    by (simp add: stub_lib_def stub_CookieString_def)
  have tk: "ApiToken stub_client = ''tok''" by (simp add: stub_client_def)
  obtain res w' where
    g: "Groups (stub_lib stub_pages) stub_UnmarshalGroups stub_client stub_world ''u1'' = Some (res, w')"
    and n: "length (sent w') = 3"
    by (simp add: Groups_def Groups_loop.simps Groups_body_def call_def call_request_def call_url_def
        Do_def stub_lib_def stub_pages_def stub_UnmarshalGroups_def stub_client_def stub_world_def
        Values_def Add_def Groups_nextLink_def stub_Marshal_def Let_def)
  from n have n': "length (requests_since stub_world w') = 3"
    by (simp add: requests_since_def stub_world_def)
  note T = call_request_headers [where L = "stub_lib stub_pages" and c = stub_client
      and endpoint = "''users/u1''" and meth = "''GET''" and request = NoRequest and req = req
      and w = stub_world and UG = stub_UnmarshalGroups and userID = "''u1''"
      and U = stub_UnmarshalGroups and response = "[]"
      and ?T1.0 = stub_target and ?T2.0 = stub_target and ?T3.0 = stub_target
      and US = stub_UnmarshalSession and username = "''alice''" and password = "''secret''"
      and sessionToken = "''tok123''" and appName = "''MyApp''"
      and ck = "\<lparr>Name = ''sid'', Value = ''s0'', Path = ''/'',
                             Domain_c = ''acme.okta.com'', Secure = True, HttpOnly = True\<rparr>"]
  from T r ck g have
    "Values (Header req) ''Accept'' = Some [''application/json'']"
    "Values (Header req) ''Content-Type'' = Some [''application/json'']"
    "Values (Header req) ''Authorization'' = Some [''SSWS tok'']"
    "Values (Header req) ''Cookie'' = Some [''sid=s0; Path=/; Domain=acme.okta.com; HttpOnly; Secure'']"
    "\<forall>r\<in>set (requests_since stub_world w').
           Values (Header r) ''Cookie'' = Some [''sid=s0; Path=/; Domain=acme.okta.com; HttpOnly; Secure'']"
    by (simp_all add: cs tk)
  with r ck g n' show ?thesis by blast
qed

text \<open>
  Claim C8. When \<^verbatim>\<open>Session\<close> returns an error, the client is as it was before the
  call; in particular its session cookie, set or nil, is the same.
\<close>

theorem Session_error_keeps_cookie:
  assumes "Session L U c w sessionToken = ((response, Some err), c', w')"
  shows "c' = c \<and> SessionCookie c' = SessionCookie c"
  using assms by (auto simp: Session_def Let_def split: prod.splits if_splits)

text \<open>An example: a client with a cookie, and a provider that answers 401.\<close>

theorem Session_error_keeps_cookie_witness:
  "\<exists>response err w'.
     Session (stub_lib stub_unauthorized) stub_UnmarshalSession
       ((NewClient ''acme'')\<lparr>SessionCookie := Some \<lparr>Name = ''sid'', Value = ''s0'', Path = ''/'',
          Domain_c = ''acme.okta.com'', Secure = True, HttpOnly = True\<rparr>\<rparr>) stub_world ''tok123''
     = ((response, Some err),
        (NewClient ''acme'')\<lparr>SessionCookie := Some \<lparr>Name = ''sid'', Value = ''s0'', Path = ''/'',
          Domain_c = ''acme.okta.com'', Secure = True, HttpOnly = True\<rparr>\<rparr>, w')"
proof -
  obtain response err c' w' where
    s: "Session (stub_lib stub_unauthorized) stub_UnmarshalSession
       ((NewClient ''acme'')\<lparr>SessionCookie := Some \<lparr>Name = ''sid'', Value = ''s0'', Path = ''/'',
          Domain_c = ''acme.okta.com'', Secure = True, HttpOnly = True\<rparr>\<rparr>) stub_world ''tok123''
        = ((response, Some err), c', w')"
    by (simp add: Session_def call_def call_request_def call_url_def Do_def stub_lib_def
        stub_unauthorized_def Let_def)
  from Session_error_keeps_cookie [OF s] s show ?thesis by blast
qed



end
